theory Spec2Isabelle
  imports Main
begin

section \<open>Host values\<close>

text \<open>
  The values that travel through the executors of \<^verbatim>\<open>app.py\<close>: test arguments, expected
  values and results. A Python \<^verbatim>\<open>str\<close> is a \<^typ>\<open>string\<close>; its characters are the code
  points below 256. A \<^verbatim>\<open>float\<close> is carried by the decimal text that denotes it: the
  rounding to binary64 is outside this development, so two texts of the same float are
  kept apart. A \<^verbatim>\<open>dict\<close> with \<^verbatim>\<open>str\<close> keys, as \<^verbatim>\<open>json.loads\<close> builds it, is the list of
  its items in the order of insertion.
\<close>

datatype pyval =
    PNone
  | PBool bool
  | PInt int
  | PFloat string
  | PStr string
  | PList "pyval list"
  | PDict "(string \<times> pyval) list"

text \<open>The classes \<^verbatim>\<open>isinstance\<close> is asked about. \<^verbatim>\<open>bool\<close> is a subclass of \<^verbatim>\<open>int\<close>.\<close>

datatype pytype = T_bool | T_str | T_int | T_float | T_list | T_tuple

fun isinstance :: "pyval \<Rightarrow> pytype \<Rightarrow> bool" where
  "isinstance (PBool b) t = (t = T_bool \<or> t = T_int)"
| "isinstance (PInt i) t = (t = T_int)"
| "isinstance (PFloat f) t = (t = T_float)"
| "isinstance (PStr s) t = (t = T_str)"
| "isinstance (PList xs) t = (t = T_list)"
| "isinstance (PDict kvs) t = False"
| "isinstance PNone t = False"

text \<open>
  Truth value of an object, as \<^verbatim>\<open>if val\<close> and \<^verbatim>\<open>not val\<close> test it. A float is true
  unless it is zero: its text has a digit other than \<^verbatim>\<open>0\<close> before the exponent, or it is
  \<^verbatim>\<open>inf\<close> or \<^verbatim>\<open>nan\<close>.
\<close>

fun truthy :: "pyval \<Rightarrow> bool" where
  "truthy PNone = False"
| "truthy (PBool b) = b"
| "truthy (PInt i) = (i \<noteq> 0)"
| "truthy (PFloat f) =
     ((\<exists>c \<in> set (takeWhile (\<lambda>c. c \<noteq> CHR ''e'' \<and> c \<noteq> CHR ''E'') f). c \<in> set ''123456789'')
      \<or> (\<exists>c \<in> set f. c = CHR ''n'' \<or> c = CHR ''N''))"
| "truthy (PStr s) = (s \<noteq> [])"
| "truthy (PList xs) = (xs \<noteq> [])"
| "truthy (PDict kvs) = (kvs \<noteq> [])"

subsection \<open>Characters\<close>

definition dquote :: char where "dquote = CHR 0x22"
definition squote :: char where "squote = CHR 0x27"
definition backslash :: char where "backslash = CHR 0x5C"
definition LF :: char where "LF = CHR 0x0A"
definition CR :: char where "CR = CHR 0x0D"
definition TAB :: char where "TAB = CHR 0x09"

definition is_digit :: "char \<Rightarrow> bool" where
  "is_digit c = (48 \<le> (of_char c :: nat) \<and> (of_char c :: nat) \<le> 57)"

definition digit_val :: "char \<Rightarrow> nat" where
  "digit_val c = of_char c - 48"

definition digit_char :: "nat \<Rightarrow> char" where
  "digit_char n = char_of (48 + n)"

definition hex_char :: "nat \<Rightarrow> char" where
  "hex_char n = (if n < 10 then char_of (48 + n) else char_of (87 + n))"

subsection \<open>\<^verbatim>\<open>str\<close> and \<^verbatim>\<open>repr\<close>\<close>

fun str_nat :: "nat \<Rightarrow> string" where
  "str_nat n = (if n < 10 then [digit_char n] else str_nat (n div 10) @ [digit_char (n mod 10)])"

declare str_nat.simps [simp del]

definition str_int :: "int \<Rightarrow> string" where
  "str_int i = (if i < 0 then CHR ''-'' # str_nat (nat (- i)) else str_nat (nat i))"

text \<open>\<^verbatim>\<open>sep.join(parts)\<close>\<close>

fun join :: "string \<Rightarrow> string list \<Rightarrow> string" where
  "join sep [] = []"
| "join sep [x] = x"
| "join sep (x # y # ys) = x @ sep @ join sep (y # ys)"

text \<open>
  \<^verbatim>\<open>repr\<close> of a \<^verbatim>\<open>str\<close>: single quotes unless the text has a single quote and no double
  quote; the quote in use and the backslash are escaped, tab, line feed and carriage
  return are written \<^verbatim>\<open>\t \n \r\<close>, and the other unprintable characters below 256 as
  \<^verbatim>\<open>\xhh\<close>.
\<close>

definition printable :: "char \<Rightarrow> bool" where
  "printable c = (let n = (of_char c :: nat) in
     (32 \<le> n \<and> n < 127) \<or> (161 \<le> n \<and> n \<noteq> 173))"

definition repr_char :: "char \<Rightarrow> char \<Rightarrow> string" where
  "repr_char q c =
     (if c = q \<or> c = backslash then [backslash, c]
      else if c = TAB then [backslash, CHR ''t'']
      else if c = LF then [backslash, CHR ''n'']
      else if c = CR then [backslash, CHR ''r'']
      else if printable c then [c]
      else [backslash, CHR ''x'', hex_char (of_char c div 16), hex_char (of_char c mod 16)])"

definition repr_str :: "string \<Rightarrow> string" where
  "repr_str s =
     (let q = (if squote \<in> set s \<and> dquote \<notin> set s then dquote else squote)
      in q # concat (map (repr_char q) s) @ [q])"

fun py_repr :: "pyval \<Rightarrow> string" where
  "py_repr PNone = ''None''"
| "py_repr (PBool b) = (if b then ''True'' else ''False'')"
| "py_repr (PInt i) = str_int i"
| "py_repr (PFloat f) = f"
| "py_repr (PStr s) = repr_str s"
| "py_repr (PList xs) = ''['' @ join '', '' (map py_repr xs) @ '']''"
| "py_repr (PDict kvs) =
     ''{'' @ join '', '' (map (\<lambda>kv. repr_str (fst kv) @ '': '' @ py_repr (snd kv)) kvs) @ ''}''"

definition py_str :: "pyval \<Rightarrow> string" where
  "py_str v = (case v of PStr s \<Rightarrow> s | _ \<Rightarrow> py_repr v)"

section \<open>Value marshalling\<close>

text \<open>
  \<^verbatim>\<open>s.replace(old, new)\<close>: the occurrences of \<open>old\<close> from the left, without overlap; for
  an empty \<open>old\<close>, \<open>new\<close> goes before every character and at the end.
\<close>

function py_replace :: "string \<Rightarrow> string \<Rightarrow> string \<Rightarrow> string" where
  "py_replace old new s =
     (if old = [] then new @ concat (map (\<lambda>c. c # new) s)
      else if s = [] then []
      else if take (length old) s = old then new @ py_replace old new (drop (length old) s)
      else hd s # py_replace old new (tl s))"
  by pat_completeness auto
termination
  by (relation "measure (\<lambda>(old, new, s). length s)") auto

declare py_replace.simps [simp del]

text \<open>
  \<^verbatim>\<open>escaped = val.replace('\\', '\\\\').replace('"', '\\"')\<close>: every backslash is doubled,
  then every double quote gets a backslash in front.
\<close>

definition escape :: "string \<Rightarrow> string" where
  "escape val = py_replace [dquote] [backslash, dquote]
                  (py_replace [backslash] [backslash, backslash] val)"

text \<open>For a pattern of one character the replacement works character by character.\<close>

definition replace_char :: "char \<Rightarrow> string \<Rightarrow> string \<Rightarrow> string" where
  "replace_char old new s = concat (map (\<lambda>c. if c = old then new else [c]) s)"

lemma py_replace_char: "py_replace [c] new s = replace_char c new s"
proof (induction s)
  case Nil
  show ?case by (subst py_replace.simps) (simp add: replace_char_def)
next
  case (Cons x xs)
  show ?case
    by (subst py_replace.simps) (simp add: Cons [unfolded replace_char_def] replace_char_def)
qed

lemma escape_replace_char:
  "escape val = replace_char dquote [backslash, dquote]
                  (replace_char backslash [backslash, backslash] val)"
  by (simp add: escape_def py_replace_char)

definition the_str :: "pyval \<Rightarrow> string" where
  "the_str v = (case v of PStr s \<Rightarrow> s | _ \<Rightarrow> [])"

definition the_list :: "pyval \<Rightarrow> pyval list" where
  "the_list v = (case v of PList xs \<Rightarrow> xs | _ \<Rightarrow> [])"

lemma the_list_size: "x \<in> set (the_list v) \<Longrightarrow> size x < size v"
  by (cases v) (auto simp: the_list_def less_Suc_eq_le size_list_estimation')

text \<open>
  \<^verbatim>\<open>python_to_java\<close>, local to \<^verbatim>\<open>execute_java\<close>. The tests run in the order of the
  source: \<^verbatim>\<open>bool\<close> first, then \<^verbatim>\<open>str\<close>, then \<^verbatim>\<open>(int, float)\<close>, then
  \<^verbatim>\<open>(list, tuple)\<close>, and \<^verbatim>\<open>str(val)\<close> for what is left.
\<close>

function python_to_java :: "pyval \<Rightarrow> string" where
  "python_to_java val =
     (if isinstance val T_bool then (if truthy val then ''true'' else ''false'')
      else if isinstance val T_str then [dquote] @ escape (the_str val) @ [dquote]
      else if isinstance val T_int \<or> isinstance val T_float then py_str val
      else if isinstance val T_list \<or> isinstance val T_tuple then
        ''new Object[]{'' @ join '', '' (map python_to_java (the_list val)) @ ''}''
      else py_str val)"
  by pat_completeness auto
termination
  by (relation "measure size") (auto simp: the_list_size)

declare python_to_java.simps [simp del]

text \<open>
  \<^verbatim>\<open>python_to_cpp\<close>, local to \<^verbatim>\<open>execute_cpp\<close>: the same tests without the one for
  lists, so that a list is rendered by \<^verbatim>\<open>str(val)\<close>.
\<close>

definition python_to_cpp :: "pyval \<Rightarrow> string" where
  "python_to_cpp val =
     (if isinstance val T_bool then (if truthy val then ''true'' else ''false'')
      else if isinstance val T_str then [dquote] @ escape (the_str val) @ [dquote]
      else if isinstance val T_int \<or> isinstance val T_float then py_str val
      else py_str val)"

section \<open>String literals of the target languages\<close>

text \<open>
  What a compiler of the target language reads from the text between two double quotes
  (Java Language Specification 3.10.5 to 3.10.7; C++17 [lex.string], [lex.ccon]): a
  backslash starts an escape sequence, a line terminator ends the line and is an error
  inside the quotes, and the closing quote must be the last character of the text. The
  escape sequences with a numeric argument (octal, hexadecimal, universal character
  names) are left out: they answer \<open>None\<close>, and the marshallers never write one. Java's
  earlier translation of \<^verbatim>\<open>\uXXXX\<close> is left out as well: it starts at a backslash that
  follows an even number of backslashes, and in an escaped text a backslash before a
  letter closes a run of doubled backslashes.
\<close>

definition java_escape :: "char \<Rightarrow> char option" where
  "java_escape e =
     (if e = backslash then Some backslash
      else if e = dquote then Some dquote
      else if e = squote then Some squote
      else if e = CHR ''n'' then Some LF
      else if e = CHR ''r'' then Some CR
      else if e = CHR ''t'' then Some TAB
      else if e = CHR ''b'' then Some (CHR 0x08)
      else if e = CHR ''f'' then Some (CHR 0x0C)
      else if e = CHR ''s'' then Some (CHR 0x20)
      else None)"

definition cpp_escape :: "char \<Rightarrow> char option" where
  "cpp_escape e =
     (if e = backslash then Some backslash
      else if e = dquote then Some dquote
      else if e = squote then Some squote
      else if e = CHR ''?'' then Some (CHR ''?'')
      else if e = CHR ''n'' then Some LF
      else if e = CHR ''r'' then Some CR
      else if e = CHR ''t'' then Some TAB
      else if e = CHR ''a'' then Some (CHR 0x07)
      else if e = CHR ''b'' then Some (CHR 0x08)
      else if e = CHR ''f'' then Some (CHR 0x0C)
      else if e = CHR ''v'' then Some (CHR 0x0B)
      else None)"

fun literal_body :: "(char \<Rightarrow> char option) \<Rightarrow> string \<Rightarrow> string option" where
  "literal_body esc [] = None"
| "literal_body esc (c # cs) =
     (if c = dquote then (if cs = [] then Some [] else None)
      else if c = LF \<or> c = CR then None
      else if c = backslash then
        (case cs of
           [] \<Rightarrow> None
         | e # rest \<Rightarrow>
             (case esc e of
                None \<Rightarrow> None
              | Some x \<Rightarrow> map_option ((#) x) (literal_body esc rest)))
      else map_option ((#) c) (literal_body esc cs))"

definition string_literal :: "(char \<Rightarrow> char option) \<Rightarrow> string \<Rightarrow> string option" where
  "string_literal esc src =
     (case src of [] \<Rightarrow> None | q # body \<Rightarrow> if q = dquote then literal_body esc body else None)"

definition java_string_literal :: "string \<Rightarrow> string option" where
  "java_string_literal = string_literal java_escape"

definition cpp_string_literal :: "string \<Rightarrow> string option" where
  "cpp_string_literal = string_literal cpp_escape"

text \<open>The effect of \<^const>\<open>escape\<close> on one character.\<close>

definition escape_char :: "char \<Rightarrow> string" where
  "escape_char c = (if c = backslash then [backslash, backslash]
                    else if c = dquote then [backslash, dquote] else [c])"

section \<open>Properties of the marshallers\<close>

lemma python_to_java_PStr: "python_to_java (PStr s) = [dquote] @ escape s @ [dquote]"
  by (simp add: python_to_java.simps the_str_def)

lemma python_to_cpp_PStr: "python_to_cpp (PStr s) = [dquote] @ escape s @ [dquote]"
  by (simp add: python_to_cpp_def the_str_def)

text \<open>
  Claim C7. Every Boolean argument is rendered as \<^verbatim>\<open>true\<close> or \<^verbatim>\<open>false\<close> by both
  marshallers, never as \<^verbatim>\<open>1\<close> or \<^verbatim>\<open>0\<close>, although a Boolean also passes the
  \<^verbatim>\<open>isinstance(val, (int, float))\<close> test that renders by \<^verbatim>\<open>str\<close>.
\<close>

theorem bool_rendered_as_literal:
  "isinstance (PBool b) T_int
   \<and> python_to_java (PBool b) = (if b then ''true'' else ''false'')
   \<and> python_to_cpp (PBool b) = (if b then ''true'' else ''false'')
   \<and> python_to_java (PBool b) \<noteq> ''1'' \<and> python_to_java (PBool b) \<noteq> ''0''
   \<and> python_to_cpp (PBool b) \<noteq> ''1'' \<and> python_to_cpp (PBool b) \<noteq> ''0''"
  by (simp add: python_to_java.simps python_to_cpp_def)

lemma escape_concat: "escape s = concat (map escape_char s)"
  by (induction s) (auto simp: escape_replace_char replace_char_def escape_char_def backslash_def dquote_def)

lemma escape_Nil: "escape [] = []"
  by (simp add: escape_concat)

lemma escape_Cons: "escape (c # s) = escape_char c @ escape s"
  by (simp add: escape_concat)

lemma literal_body_escape:
  assumes "esc backslash = Some backslash" and "esc dquote = Some dquote"
  shows "literal_body esc (escape s @ [dquote]) =
           (if LF \<in> set s \<or> CR \<in> set s then None else Some s)"
  using assms
  by (induction s) (auto simp: escape_Cons escape_Nil escape_char_def backslash_def dquote_def LF_def CR_def)


text \<open>
  Claim C6, as amended. A string is rendered between double quotes with every backslash
  and every double quote escaped, and the literal read back by the target language is the
  string itself exactly when the string has no line feed and no carriage return: one of
  these is written raw between the quotes, where neither language accepts it.
\<close>

theorem string_round_trip:
  "(java_string_literal (python_to_java (PStr s)) = Some s) = (LF \<notin> set s \<and> CR \<notin> set s)
   \<and> (cpp_string_literal (python_to_cpp (PStr s)) = Some s) = (LF \<notin> set s \<and> CR \<notin> set s)"
  by (simp add: java_string_literal_def cpp_string_literal_def string_literal_def
      python_to_java_PStr python_to_cpp_PStr literal_body_escape java_escape_def cpp_escape_def)

theorem string_round_trip_witness:
  "java_string_literal (python_to_java (PStr [CHR ''a'', dquote, backslash, CHR ''n'']))
     = Some [CHR ''a'', dquote, backslash, CHR ''n'']"
  using string_round_trip [of "[CHR ''a'', dquote, backslash, CHR ''n'']"]
  by (simp add: dquote_def backslash_def LF_def CR_def)

text \<open>The rendering of \<^verbatim>\<open>"a\\nb"\<close> is no string literal in either language.\<close>

theorem string_with_newline_counterexample:
  "java_string_literal (python_to_java (PStr [CHR ''a'', LF, CHR ''b''])) = None
   \<and> cpp_string_literal (python_to_cpp (PStr [CHR ''a'', LF, CHR ''b''])) = None"
  by (simp add: java_string_literal_def cpp_string_literal_def string_literal_def
      python_to_java_PStr python_to_cpp_PStr escape_replace_char replace_char_def
      dquote_def backslash_def LF_def CR_def)


section \<open>Text operations of the result parser\<close>

text \<open>\<^verbatim>\<open>s.startswith(p)\<close>\<close>

definition startswith :: "string \<Rightarrow> string \<Rightarrow> bool" where
  "startswith s p = (take (length p) s = p)"

text \<open>\<^verbatim>\<open>s.split(sep)\<close> for a separator of one character: never an empty list.\<close>

fun split_on :: "char \<Rightarrow> string \<Rightarrow> string list" where
  "split_on sep [] = [[]]"
| "split_on sep (c # cs) =
     (if c = sep then [] # split_on sep cs
      else (case split_on sep cs of
              [] \<Rightarrow> [[c]]
            | l # ls \<Rightarrow> (c # l) # ls))"

text \<open>
  \<^verbatim>\<open>str.isspace\<close> on one character below 256: the ASCII white space, the four
  separators 28 to 31, NEL and the no-break space.
\<close>

definition isspace :: "char \<Rightarrow> bool" where
  "isspace c = (let n = (of_char c :: nat) in
     (9 \<le> n \<and> n \<le> 13) \<or> (28 \<le> n \<and> n \<le> 32) \<or> n = 133 \<or> n = 160)"

text \<open>\<^verbatim>\<open>s.strip()\<close>\<close>

definition py_strip :: "string \<Rightarrow> string" where
  "py_strip s = rev (dropWhile isspace (rev (dropWhile isspace s)))"

text \<open>\<^verbatim>\<open>s.lower()\<close> on characters below 256.\<close>

definition lower_char :: "char \<Rightarrow> char" where
  "lower_char c = (let n = (of_char c :: nat) in
     if (65 \<le> n \<and> n \<le> 90) \<or> (192 \<le> n \<and> n \<le> 222 \<and> n \<noteq> 215)
     then char_of (n + 32) else c)"

definition py_lower :: "string \<Rightarrow> string" where
  "py_lower s = map lower_char s"

subsection \<open>\<^verbatim>\<open>int(text)\<close> and \<^verbatim>\<open>float(text)\<close>\<close>

text \<open>
  The grammar of both: \<^verbatim>\<open>digitpart ::= digit (["_"] digit)*\<close>. \<open>digit_run\<close> reads
  \<^verbatim>\<open>(["_"] digit)*\<close> and answers the digits read and the text left.
\<close>

fun digit_run :: "string \<Rightarrow> string \<times> string" where
  "digit_run [] = ([], [])"
| "digit_run [c] = (if is_digit c then ([c], []) else ([], [c]))"
| "digit_run (c # d # cs) =
     (if is_digit c then (case digit_run (d # cs) of (ds, r) \<Rightarrow> (c # ds, r))
      else if c = CHR ''_'' \<and> is_digit d then (case digit_run cs of (ds, r) \<Rightarrow> (d # ds, r))
      else ([], c # d # cs))"

definition digitpart :: "string \<Rightarrow> (string \<times> string) option" where
  "digitpart s =
     (case s of
        [] \<Rightarrow> None
      | c # cs \<Rightarrow> if is_digit c then (case digit_run cs of (ds, r) \<Rightarrow> Some (c # ds, r)) else None)"

definition nat_of_digits :: "string \<Rightarrow> nat" where
  "nat_of_digits ds = foldl (\<lambda>a c. 10 * a + digit_val c) 0 ds"

text \<open>An optional sign: whether it is a minus, and the text after it.\<close>

definition split_sign :: "string \<Rightarrow> bool \<times> string" where
  "split_sign s =
     (case s of
        [] \<Rightarrow> (False, [])
      | c # cs \<Rightarrow> if c = CHR ''-'' then (True, cs) else if c = CHR ''+'' then (False, cs) else (False, s))"

text \<open>
  The interpreter's bound on the digits of a decimal text that \<^verbatim>\<open>int\<close> converts
  (\<^verbatim>\<open>sys.get_int_max_str_digits()\<close>, 4300 unless configured; interpreters before
  3.11 have none).
\<close>

definition int_max_str_digits :: nat where
  "int_max_str_digits = 4300"

text \<open>
  \<^verbatim>\<open>int(text)\<close> in base ten; \<open>None\<close> is \<^verbatim>\<open>ValueError\<close>. White space around the text is
  dropped, then \<^verbatim>\<open>[sign] digitpart\<close> must be all of it.
\<close>

definition py_int :: "string \<Rightarrow> int option" where
  "py_int text =
     (case split_sign (py_strip text) of
        (neg, body) \<Rightarrow>
          (case digitpart body of
             None \<Rightarrow> None
           | Some (ds, r) \<Rightarrow>
               if r \<noteq> [] \<or> int_max_str_digits < length ds then None
               else Some (if neg then - int (nat_of_digits ds) else int (nat_of_digits ds))))"

text \<open>
  \<^verbatim>\<open>float(text)\<close>; \<open>None\<close> is \<^verbatim>\<open>ValueError\<close>. The grammar, after the white space is
  dropped: \<^verbatim>\<open>[sign] (floatnumber | "inf" | "infinity" | "nan")\<close> in any letter case,
  with \<^verbatim>\<open>floatnumber ::= ([digitpart] "." digitpart | digitpart ["."]) [("e" | "E") [sign] digitpart]\<close>.
  \<open>after_mantissa\<close> answers the text left after the mantissa.
\<close>

definition after_point :: "string \<Rightarrow> string option" where
  "after_point s =
     (case s of
        [] \<Rightarrow> None
      | c # cs \<Rightarrow> if c = CHR ''.'' then Some cs else None)"

definition after_mantissa :: "string \<Rightarrow> string option" where
  "after_mantissa s =
     (case digitpart s of
        Some (ds, r) \<Rightarrow>
          (case after_point r of
             None \<Rightarrow> Some r
           | Some r' \<Rightarrow> (case digitpart r' of None \<Rightarrow> Some r' | Some (fs, r'') \<Rightarrow> Some r''))
      | None \<Rightarrow>
          (case after_point s of
             None \<Rightarrow> None
           | Some r' \<Rightarrow> (case digitpart r' of None \<Rightarrow> None | Some (fs, r'') \<Rightarrow> Some r'')))"

definition is_exponent :: "string \<Rightarrow> bool" where
  "is_exponent s =
     (case s of
        [] \<Rightarrow> False
      | e # r \<Rightarrow>
          (e = CHR ''e'' \<or> e = CHR ''E'') \<and>
          (case digitpart (snd (split_sign r)) of None \<Rightarrow> False | Some (ds, r') \<Rightarrow> r' = []))"

definition is_floatnumber :: "string \<Rightarrow> bool" where
  "is_floatnumber s = (case after_mantissa s of None \<Rightarrow> False | Some r \<Rightarrow> r = [] \<or> is_exponent r)"

definition py_float :: "string \<Rightarrow> string option" where
  "py_float text =
     (let s = py_strip text; body = snd (split_sign s) in
      if is_floatnumber body \<or> py_lower body \<in> {''inf'', ''infinity'', ''nan''}
      then Some s else None)"

section \<open>Result parsing\<close>

text \<open>
  The \<^verbatim>\<open>try\<close> block shared by \<^verbatim>\<open>execute_java\<close> and \<^verbatim>\<open>execute_cpp\<close>:
  \<^verbatim>\<open>float(result_str)\<close> when the text has a point, \<^verbatim>\<open>int(result_str)\<close> otherwise;
  \<open>None\<close> is the \<^verbatim>\<open>ValueError\<close> that the \<^verbatim>\<open>except\<close> clause handles.
\<close>

definition parse_number :: "string \<Rightarrow> pyval option" where
  "parse_number result_str =
     (if CHR ''.'' \<in> set result_str then map_option PFloat (py_float result_str)
      else map_option PInt (py_int result_str))"

definition java_parse_value :: "string \<Rightarrow> pyval" where
  "java_parse_value result_str =
     (case parse_number result_str of
        Some result \<Rightarrow> result
      | None \<Rightarrow>
          if py_lower result_str = ''true'' then PBool True
          else if py_lower result_str = ''false'' then PBool False
          else PStr result_str)"

definition cpp_parse_value :: "string \<Rightarrow> pyval" where
  "cpp_parse_value result_str =
     (case parse_number result_str of
        Some result \<Rightarrow> result
      | None \<Rightarrow>
          if result_str = ''1'' then PBool True
          else if result_str = ''0'' then PBool False
          else PStr result_str)"

text \<open>
  The loop \<^verbatim>\<open>for line in output.split('\n')\<close>: the first line that starts with
  \<^verbatim>\<open>RESULT:\<close> decides, \<open>None\<close> when the loop ends without one. \<open>payload\<close> is
  \<^verbatim>\<open>line[7:]\<close>.
\<close>

definition result_line :: "string \<Rightarrow> string option" where
  "result_line output = find (\<lambda>line. startswith line ''RESULT:'') (split_on LF output)"

definition payload :: "string \<Rightarrow> string" where
  "payload line = drop 7 line"

definition java_parse_output :: "string \<Rightarrow> pyval option" where
  "java_parse_output output =
     map_option (\<lambda>line. java_parse_value (py_strip (payload line))) (result_line output)"

definition cpp_parse_output :: "string \<Rightarrow> pyval option" where
  "cpp_parse_output output =
     map_option (\<lambda>line. cpp_parse_value (py_strip (payload line))) (result_line output)"


text \<open>
  The spec's words: purely numeric, a number with a decimal point; and with the sign and
  the exponent that the results of a program can have: a signed integer, its value, and
  a decimal number.
\<close>

definition purely_numeric :: "string \<Rightarrow> bool" where
  "purely_numeric t = (t \<noteq> [] \<and> list_all is_digit t)"

definition decimal_point_number :: "string \<Rightarrow> bool" where
  "decimal_point_number t =
     (let a = takeWhile is_digit t in
      case dropWhile is_digit t of
        [] \<Rightarrow> False
      | c # b \<Rightarrow> c = CHR ''.'' \<and> list_all is_digit b \<and> (a \<noteq> [] \<or> b \<noteq> []))"

definition signed_integer :: "string \<Rightarrow> bool" where
  "signed_integer t = purely_numeric (snd (split_sign t))"

definition integer_value :: "string \<Rightarrow> int" where
  "integer_value t =
     (case split_sign t of
        (neg, ds) \<Rightarrow> if neg then - int (nat_of_digits ds) else int (nat_of_digits ds))"

definition exponent_part :: "string \<Rightarrow> bool" where
  "exponent_part x =
     (case x of
        [] \<Rightarrow> False
      | c # r \<Rightarrow> (c = CHR ''e'' \<or> c = CHR ''E'') \<and> purely_numeric (snd (split_sign r)))"

definition decimal_number :: "string \<Rightarrow> bool" where
  "decimal_number t =
     (let u = snd (split_sign t);
          m = takeWhile (\<lambda>c. c \<noteq> CHR ''e'' \<and> c \<noteq> CHR ''E'') u;
          x = dropWhile (\<lambda>c. c \<noteq> CHR ''e'' \<and> c \<noteq> CHR ''E'') u
      in decimal_point_number m \<and> (x = [] \<or> exponent_part x))"

lemma digit_not_space: "is_digit c \<Longrightarrow> \<not> isspace c"
  by (auto simp: is_digit_def isspace_def Let_def)

lemma digit_not_sign: "is_digit c \<Longrightarrow> c \<noteq> CHR ''-'' \<and> c \<noteq> CHR ''+'' \<and> c \<noteq> CHR ''.'' \<and> c \<noteq> CHR ''_''"
  by (auto simp: is_digit_def)

lemma py_strip_id:
  assumes "t \<noteq> []" and "\<not> isspace (hd t)" and "\<not> isspace (last t)"
  shows "py_strip t = t"
proof -
  have lead: "dropWhile isspace t = t"
    using assms by (simp add: dropWhile_eq_self_iff)
  have trail: "dropWhile isspace (rev t) = rev t"
    using assms by (simp add: dropWhile_eq_self_iff hd_rev)
  show ?thesis
    by (simp add: py_strip_def lead trail)
qed

lemma digit_run_digits: "list_all is_digit ds \<Longrightarrow> digit_run ds = (ds, [])"
  by (induction ds rule: digit_run.induct) auto

lemma digit_run_stop:
  "list_all is_digit ds \<Longrightarrow> \<not> is_digit c \<Longrightarrow> c \<noteq> CHR ''_'' \<Longrightarrow> digit_run (ds @ c # r) = (ds, c # r)"
proof (induction ds)
  case Nil
  then show ?case by (cases r) auto
next
  case (Cons d ds)
  then show ?case by (cases ds) auto
qed

lemma digitpart_digits: "purely_numeric ds \<Longrightarrow> digitpart ds = Some (ds, [])"
  by (cases ds) (auto simp: purely_numeric_def digitpart_def digit_run_digits)

lemma digitpart_stop:
  "ds \<noteq> [] \<Longrightarrow> list_all is_digit ds \<Longrightarrow> \<not> is_digit c \<Longrightarrow> c \<noteq> CHR ''_'' \<Longrightarrow>
   digitpart (ds @ c # r) = Some (ds, c # r)"
  by (cases ds) (auto simp: digitpart_def digit_run_stop)

lemma digitpart_no_digit: "\<not> is_digit c \<Longrightarrow> digitpart (c # r) = None"
  by (simp add: digitpart_def)

lemma py_int_digits:
  assumes "purely_numeric t" and "length t \<le> int_max_str_digits"
  shows "py_int t = Some (int (nat_of_digits t))"
proof -
  from assms(1) obtain c cs where t: "t = c # cs" and c: "is_digit c" and l: "is_digit (last t)"
    by (cases t) (auto simp: purely_numeric_def list_all_iff)
  have "py_strip t = t"
    using t c l by (intro py_strip_id) (auto dest: digit_not_space)
  moreover have "split_sign t = (False, t)"
    using t c by (auto simp: split_sign_def dest: digit_not_sign)
  ultimately show ?thesis
    using assms by (simp add: py_int_def digitpart_digits)
qed


lemma after_point_digit: "is_digit c \<Longrightarrow> after_point (c # r) = None"
  by (auto simp: after_point_def dest: digit_not_sign)

lemma not_digit_point: "\<not> is_digit (CHR ''.'')"
  by (simp add: is_digit_def)

lemma is_floatnumber_decimal:
  assumes "decimal_point_number t"
  shows "is_floatnumber t"
proof -
  define a where "a = takeWhile is_digit t"
  from assms obtain b where r: "dropWhile is_digit t = CHR ''.'' # b"
    and b: "list_all is_digit b" and ab: "a \<noteq> [] \<or> b \<noteq> []"
    by (auto simp: decimal_point_number_def Let_def a_def split: list.splits)
  have t: "t = a @ CHR ''.'' # b"
    using r takeWhile_dropWhile_id [of is_digit t] by (simp add: a_def)
  have a: "list_all is_digit a"
    by (simp add: a_def list_all_iff) (meson set_takeWhileD)
  show ?thesis
  proof (cases "a = []")
    case True
    then have "b \<noteq> []" using ab by simp
    then have "purely_numeric b" using b by (simp add: purely_numeric_def)
    then show ?thesis
      using True t
      by (simp add: is_floatnumber_def after_mantissa_def digitpart_no_digit not_digit_point
          after_point_def digitpart_digits)
  next
    case False
    then have dp: "digitpart t = Some (a, CHR ''.'' # b)"
      using a t by (simp add: digitpart_stop not_digit_point)
    show ?thesis
    proof (cases "b = []")
      case True
      then show ?thesis
        using dp by (simp add: is_floatnumber_def after_mantissa_def after_point_def digitpart_def)
    next
      case False
      then have "purely_numeric b" using b by (simp add: purely_numeric_def)
      then show ?thesis
        using dp by (simp add: is_floatnumber_def after_mantissa_def after_point_def digitpart_digits)
    qed
  qed
qed

lemma decimal_point_number_ends:
  assumes "decimal_point_number t"
  shows "t \<noteq> [] \<and> (is_digit (hd t) \<or> hd t = CHR ''.'') \<and> (is_digit (last t) \<or> last t = CHR ''.'')
         \<and> CHR ''.'' \<in> set t"
proof -
  define a where "a = takeWhile is_digit t"
  from assms obtain b where r: "dropWhile is_digit t = CHR ''.'' # b"
    and b: "list_all is_digit b"
    by (auto simp: decimal_point_number_def Let_def split: list.splits)
  have t: "t = a @ CHR ''.'' # b"
    using r takeWhile_dropWhile_id [of is_digit t] by (simp add: a_def)
  have a: "list_all is_digit a"
    by (simp add: a_def list_all_iff) (meson set_takeWhileD)
  have "is_digit (hd t) \<or> hd t = CHR ''.''"
    using a t by (cases a) auto
  moreover have "is_digit (last t) \<or> last t = CHR ''.''"
    using b t by (cases b rule: rev_cases) (auto simp: list_all_iff)
  ultimately show ?thesis using t by auto
qed

lemma point_not_space: "\<not> isspace (CHR ''.'')"
  by (simp add: isspace_def)

lemma py_float_decimal:
  assumes "decimal_point_number t"
  shows "py_float t = Some t"
proof -
  from decimal_point_number_ends [OF assms]
  have ne: "t \<noteq> []" and h: "is_digit (hd t) \<or> hd t = CHR ''.''"
    and l: "is_digit (last t) \<or> last t = CHR ''.''" by auto
  have "py_strip t = t"
    using ne h l by (intro py_strip_id) (auto dest: digit_not_space simp: point_not_space)
  moreover have "split_sign t = (False, t)"
    using ne h by (cases t) (auto simp: split_sign_def dest: digit_not_sign)
  ultimately show ?thesis
    using is_floatnumber_decimal [OF assms] by (simp add: py_float_def)
qed


lemma of_char_lower_char:
  "(of_char (lower_char c) :: nat) =
     (if (65 \<le> (of_char c :: nat) \<and> (of_char c :: nat) \<le> 90)
         \<or> (192 \<le> (of_char c :: nat) \<and> (of_char c :: nat) \<le> 222 \<and> (of_char c :: nat) \<noteq> 215)
      then of_char c + 32 else of_char c)"
  by (auto simp: lower_char_def Let_def)

lemma lower_letter:
  assumes "97 \<le> (of_char (lower_char c) :: nat)" and "(of_char (lower_char c) :: nat) \<le> 122"
  shows "\<not> is_digit c \<and> \<not> isspace c \<and> c \<noteq> CHR ''-'' \<and> c \<noteq> CHR ''+'' \<and> c \<noteq> CHR ''.''"
  using assms unfolding of_char_lower_char
  by (auto simp: is_digit_def isspace_def Let_def split: if_splits)

lemma word_not_number:
  assumes "t \<noteq> []" and "\<forall>c \<in> set t. 97 \<le> (of_char (lower_char c) :: nat) \<and> (of_char (lower_char c) :: nat) \<le> 122"
  shows "parse_number t = None"
proof -
  from assms obtain c cs where t: "t = c # cs" by (cases t) auto
  have h: "\<not> is_digit (hd t) \<and> \<not> isspace (hd t) \<and> hd t \<noteq> CHR ''-'' \<and> hd t \<noteq> CHR ''+''"
    using assms lower_letter [of "hd t"] by (simp add: t)
  have l: "\<not> isspace (last t)"
    using assms lower_letter [of "last t"] last_in_set [of t] by blast
  have nopoint: "CHR ''.'' \<notin> set t"
    using assms lower_letter by blast
  have "py_strip t = t"
    using assms(1) h l by (intro py_strip_id) auto
  moreover have "split_sign t = (False, t)"
    using h by (simp add: t split_sign_def)
  moreover have "digitpart t = None"
    using h by (simp add: t digitpart_def)
  ultimately show ?thesis
    using nopoint by (simp add: parse_number_def py_int_def)
qed

lemma true_not_number: "py_lower t = ''true'' \<Longrightarrow> parse_number t = None"
  by (rule word_not_number) (auto simp: py_lower_def)

lemma false_not_number: "py_lower t = ''false'' \<Longrightarrow> parse_number t = None"
  by (rule word_not_number) (auto simp: py_lower_def)


lemma set_py_strip: "set (py_strip s) \<subseteq> set s"
  unfolding py_strip_def by (metis set_dropWhileD set_rev subsetI)

lemma dropWhile_keeps: "x \<in> set xs \<Longrightarrow> \<not> P x \<Longrightarrow> x \<in> set (dropWhile P xs)"
  by (induction xs) auto

lemma py_strip_keeps: "x \<in> set s \<Longrightarrow> \<not> isspace x \<Longrightarrow> x \<in> set (py_strip s)"
  by (simp add: py_strip_def dropWhile_keeps)

lemma set_split_sign: "set (snd (split_sign s)) \<subseteq> set s"
  by (cases s) (auto simp: split_sign_def)

lemma split_sign_keeps: "x \<in> set s \<Longrightarrow> x \<noteq> CHR ''-'' \<Longrightarrow> x \<noteq> CHR ''+'' \<Longrightarrow> x \<in> set (snd (split_sign s))"
  by (cases s) (auto simp: split_sign_def)

lemma digitpart_has_digit: "digitpart s = Some p \<Longrightarrow> \<exists>c \<in> set s. is_digit c"
  by (cases s) (auto simp: digitpart_def split: if_splits)

lemma after_point_set: "after_point s = Some r \<Longrightarrow> set r \<subseteq> set s"
  by (cases s) (auto simp: after_point_def split: if_splits)

lemma is_floatnumber_has_digit:
  assumes "is_floatnumber s"
  shows "\<exists>c \<in> set s. is_digit c"
proof (cases "digitpart s")
  case (Some p)
  then show ?thesis by (rule digitpart_has_digit)
next
  case None
  with assms obtain r' p where "after_point s = Some r'" and "digitpart r' = Some p"
    by (auto simp: is_floatnumber_def after_mantissa_def split: option.splits)
  then show ?thesis
    using after_point_set digitpart_has_digit by blast
qed

lemma lower_char_point: "lower_char (CHR ''.'') = CHR ''.''"
  by (simp add: lower_char_def)

lemma no_digit_not_number:
  assumes "\<not> (\<exists>c \<in> set t. is_digit c)"
  shows "parse_number t = None"
proof (cases "CHR ''.'' \<in> set t")
  case False
  have "digitpart (snd (split_sign (py_strip t))) = None"
  proof (rule ccontr)
    assume "digitpart (snd (split_sign (py_strip t))) \<noteq> None"
    then obtain c where "c \<in> set (snd (split_sign (py_strip t)))" and "is_digit c"
      using digitpart_has_digit by blast
    then show False
      using assms set_split_sign set_py_strip by blast
  qed
  then show ?thesis
    using False by (cases "split_sign (py_strip t)") (simp add: parse_number_def py_int_def)
next
  case True
  define body where "body = snd (split_sign (py_strip t))"
  have "CHR ''.'' \<in> set body"
    unfolding body_def using True
    by (intro split_sign_keeps py_strip_keeps) (simp_all add: point_not_space)
  then have "CHR ''.'' \<in> set (py_lower body)"
    using lower_char_point by (force simp: py_lower_def)
  then have word: "py_lower body \<notin> {''inf'', ''infinity'', ''nan''}"
    by auto
  have "\<not> is_floatnumber body"
  proof
    assume "is_floatnumber body"
    then obtain c where "c \<in> set body" and "is_digit c"
      using is_floatnumber_has_digit by blast
    then show False
      using assms set_split_sign set_py_strip unfolding body_def by blast
  qed
  then show ?thesis
    using True word by (simp add: parse_number_def py_float_def body_def Let_def)
qed

lemma parse_number_not_list: "parse_number t \<noteq> Some (PList xs)"
  by (auto simp: parse_number_def)

lemma parse_number_not_bool: "parse_number t \<noteq> Some (PBool b)"
  by (auto simp: parse_number_def)



lemma find_first: "\<forall>l \<in> set before. \<not> P l \<Longrightarrow> P x \<Longrightarrow> find P (before @ x # rest) = Some x"
  by (induction before) simp_all

lemma result_line_first:
  assumes "split_on LF output = before @ line # rest"
    and "\<forall>l \<in> set before. \<not> startswith l ''RESULT:''"
    and "startswith line ''RESULT:''"
  shows "result_line output = Some line"
  using find_first [of before "\<lambda>l. startswith l ''RESULT:''" line rest] assms
  by (simp add: result_line_def)

lemma sign_not_space: "\<not> isspace (CHR ''-'')" "\<not> isspace (CHR ''+'')"
  by (simp_all add: isspace_def)

lemma split_sign_cases:
  "(split_sign t = (False, t) \<and> (t = [] \<or> (hd t \<noteq> CHR ''-'' \<and> hd t \<noteq> CHR ''+'')))
   \<or> (\<exists>c u. t = c # u \<and> (c = CHR ''-'' \<or> c = CHR ''+'') \<and> split_sign t = (c = CHR ''-'', u))"
  by (cases t) (simp_all add: split_sign_def)

lemma py_int_signed:
  assumes "signed_integer t" and "length (snd (split_sign t)) \<le> int_max_str_digits"
  shows "py_int t = Some (integer_value t)" and "CHR ''.'' \<notin> set t"
proof -
  define ds where "ds = snd (split_sign t)"
  have p: "purely_numeric ds"
    using assms(1) by (simp add: signed_integer_def ds_def)
  then have ne: "ds \<noteq> []" and all: "\<forall>c \<in> set ds. is_digit c"
    by (auto simp: purely_numeric_def list_all_iff)
  have l: "is_digit (last ds)"
    using ne all by simp
  have h: "is_digit (hd ds)"
    using ne all by simp
  have strip: "py_strip t = t \<and> CHR ''.'' \<notin> set t"
  proof -
    consider (plain) "split_sign t = (False, t)"
      | (signed) c u where "t = c # u" "c = CHR ''-'' \<or> c = CHR ''+''" "split_sign t = (c = CHR ''-'', u)"
      using split_sign_cases [of t] by blast
    then show ?thesis
    proof cases
      case plain
      then have "t = ds" by (simp add: ds_def)
      then show ?thesis
        using ne h l all by (auto intro!: py_strip_id dest: digit_not_space simp: not_digit_point)
    next
      case signed
      then have u: "u = ds" by (simp add: ds_def)
      have "last t = last ds" using signed u ne by simp
      moreover have "\<not> isspace (hd t)" using signed sign_not_space by auto
      ultimately have "py_strip t = t"
        using signed l by (intro py_strip_id) (auto dest: digit_not_space)
      moreover have "CHR ''.'' \<notin> set t"
        using signed u all by (auto simp: not_digit_point)
      ultimately show ?thesis by simp
    qed
  qed
  show "CHR ''.'' \<notin> set t" using strip by simp
  show "py_int t = Some (integer_value t)"
    using strip assms(2) digitpart_digits [OF p]
    by (cases "split_sign t") (simp add: py_int_def integer_value_def ds_def)
qed


lemma after_mantissa_decimal:
  assumes "decimal_point_number m" and "x = [] \<or> (\<not> is_digit (hd x) \<and> hd x \<noteq> CHR ''_'')"
  shows "after_mantissa (m @ x) = Some x"
proof -
  define a where "a = takeWhile is_digit m"
  from assms(1) obtain b where r: "dropWhile is_digit m = CHR ''.'' # b"
    and b: "list_all is_digit b" and ab: "a \<noteq> [] \<or> b \<noteq> []"
    by (auto simp: decimal_point_number_def Let_def a_def split: list.splits)
  have m: "m = a @ CHR ''.'' # b"
    using r takeWhile_dropWhile_id [of is_digit m] by (simp add: a_def)
  have a: "list_all is_digit a"
    by (simp add: a_def list_all_iff) (meson set_takeWhileD)
  have nox: "digitpart x = None"
    using assms(2) by (cases x) (simp_all add: digitpart_def)
  have bx: "digitpart (b @ x) = Some (b, x)" if "b \<noteq> []"
  proof (cases x)
    case Nil
    then show ?thesis using that b by (simp add: digitpart_digits purely_numeric_def)
  next
    case (Cons c r)
    then show ?thesis using that b assms(2) by (simp add: digitpart_stop)
  qed
  show ?thesis
  proof (cases "a = []")
    case True
    then have "b \<noteq> []" using ab by simp
    then show ?thesis
      using True m bx
      by (simp add: after_mantissa_def digitpart_no_digit not_digit_point after_point_def)
  next
    case False
    have "digitpart (a @ CHR ''.'' # (b @ x)) = Some (a, CHR ''.'' # (b @ x))"
      using False a by (intro digitpart_stop) (simp_all add: not_digit_point)
    then have dp: "digitpart (m @ x) = Some (a, CHR ''.'' # (b @ x))"
      by (simp add: m)
    show ?thesis
    proof (cases "b = []")
      case True
      then show ?thesis
        using dp nox by (simp add: after_mantissa_def after_point_def)
    next
      case False
      then show ?thesis
        using dp bx by (simp add: after_mantissa_def after_point_def)
    qed
  qed
qed

lemma exponent_part_is_exponent: "exponent_part x \<Longrightarrow> is_exponent x"
  by (cases x) (auto simp: exponent_part_def is_exponent_def digitpart_digits)

lemma exponent_part_last: "exponent_part x \<Longrightarrow> x \<noteq> [] \<and> is_digit (last x)"
proof -
  assume e: "exponent_part x"
  then obtain c r where x: "x = c # r" and p: "purely_numeric (snd (split_sign r))"
    by (cases x) (auto simp: exponent_part_def)
  define ds where "ds = snd (split_sign r)"
  have ne: "ds \<noteq> []" and l: "is_digit (last ds)"
    using p by (auto simp: purely_numeric_def list_all_iff ds_def)
  have "r \<noteq> [] \<and> last r = last ds"
    using ne split_sign_cases [of r] by (auto simp: ds_def)
  then show ?thesis
    using x l by simp
qed

lemma py_float_decimal_number:
  assumes "decimal_number t"
  shows "py_float t = Some t" and "CHR ''.'' \<in> set t"
proof -
  define u where "u = snd (split_sign t)"
  define m where "m = takeWhile (\<lambda>c. c \<noteq> CHR ''e'' \<and> c \<noteq> CHR ''E'') u"
  define x where "x = dropWhile (\<lambda>c. c \<noteq> CHR ''e'' \<and> c \<noteq> CHR ''E'') u"
  have d: "decimal_point_number m" and ex: "x = [] \<or> exponent_part x"
    using assms by (simp_all add: decimal_number_def Let_def u_def m_def x_def)
  have u: "u = m @ x"
    by (simp add: m_def x_def)
  from decimal_point_number_ends [OF d]
  have ne: "m \<noteq> []" and h: "is_digit (hd m) \<or> hd m = CHR ''.''"
    and l: "is_digit (last m) \<or> last m = CHR ''.''" and pt: "CHR ''.'' \<in> set m" by auto
  have hx: "x = [] \<or> (\<not> is_digit (hd x) \<and> hd x \<noteq> CHR ''_'')"
  proof (cases x)
    case Nil
    then show ?thesis by simp
  next
    case (Cons c r)
    then have "c = CHR ''e'' \<or> c = CHR ''E''"
      using hd_dropWhile [of "\<lambda>c. c \<noteq> CHR ''e'' \<and> c \<noteq> CHR ''E''" u] by (simp add: x_def)
    then show ?thesis using Cons by (auto simp: is_digit_def)
  qed
  have fl: "is_floatnumber u"
    using after_mantissa_decimal [OF d hx] ex exponent_part_is_exponent
    by (auto simp: is_floatnumber_def u)
  have une: "u \<noteq> []" using ne u by simp
  have hu: "\<not> isspace (hd u)"
    using ne h u by (auto dest: digit_not_space simp: point_not_space)
  have lu: "\<not> isspace (last u)"
  proof (cases "x = []")
    case True
    then show ?thesis using l u by (auto dest: digit_not_space simp: point_not_space)
  next
    case False
    then have "is_digit (last x)" using ex exponent_part_last by blast
    then show ?thesis using False u by (auto dest: digit_not_space)
  qed
  have t: "t \<noteq> [] \<and> \<not> isspace (hd t) \<and> last t = last u \<and> set u \<subseteq> set t"
    using split_sign_cases [of t] une hu sign_not_space by (auto simp: u_def)
  then have "py_strip t = t"
    using lu by (intro py_strip_id) simp_all
  then show "py_float t = Some t"
    using fl by (simp add: py_float_def Let_def u_def)
  show "CHR ''.'' \<in> set t"
    using pt t u by auto
qed

lemma parse_number_None:
  "(parse_number t = None) = (if CHR ''.'' \<in> set t then py_float t = None else py_int t = None)"
  by (simp add: parse_number_def)

text \<open>
  Claim C2, as amended. The first line of the output that starts with \<^verbatim>\<open>RESULT:\<close> decides,
  and the text \<open>t\<close> that is classified is its payload without the white space around it.
  A text with a decimal point that \<^verbatim>\<open>float\<close> accepts is a Float, as every decimal number
  is: an optional sign, digits with a decimal point, an optional exponent. A text without
  a decimal point that \<^verbatim>\<open>int\<close> accepts is an Integer, as every signed integer within the
  interpreter's digit bound is; for C++ this is stated for every text but \<^verbatim>\<open>1\<close> and
  \<^verbatim>\<open>0\<close>. For Java, \<^verbatim>\<open>true\<close> and \<^verbatim>\<open>false\<close> in any letter case are Booleans. A text
  that the number conversion rejects, as every text without a digit is, and that is no
  Boolean word, is the String \<open>t\<close>.
\<close>

theorem result_classification:
  assumes "split_on LF output = before @ line # rest"
    and "\<forall>l \<in> set before. \<not> startswith l ''RESULT:''"
    and "startswith line ''RESULT:''"
    and "t = py_strip (payload line)"
  shows "java_parse_output output = Some (java_parse_value t)
    \<and> cpp_parse_output output = Some (cpp_parse_value t)
    \<and> (CHR ''.'' \<in> set t \<and> py_float t = Some f \<longrightarrow>
         java_parse_value t = PFloat f \<and> cpp_parse_value t = PFloat f)
    \<and> (decimal_number t \<longrightarrow> java_parse_value t = PFloat t \<and> cpp_parse_value t = PFloat t)
    \<and> (CHR ''.'' \<notin> set t \<and> py_int t = Some i \<longrightarrow>
         java_parse_value t = PInt i
         \<and> (t \<noteq> ''1'' \<and> t \<noteq> ''0'' \<longrightarrow> cpp_parse_value t = PInt i))
    \<and> (signed_integer t \<and> length (snd (split_sign t)) \<le> int_max_str_digits \<longrightarrow>
         java_parse_value t = PInt (integer_value t)
         \<and> (t \<noteq> ''1'' \<and> t \<noteq> ''0'' \<longrightarrow> cpp_parse_value t = PInt (integer_value t)))
    \<and> (py_lower t = ''true'' \<longrightarrow> java_parse_value t = PBool True)
    \<and> (py_lower t = ''false'' \<longrightarrow> java_parse_value t = PBool False)
    \<and> (parse_number t = None \<and> py_lower t \<noteq> ''true'' \<and> py_lower t \<noteq> ''false'' \<longrightarrow>
         java_parse_value t = PStr t)
    \<and> (parse_number t = None \<and> t \<noteq> ''1'' \<and> t \<noteq> ''0'' \<longrightarrow> cpp_parse_value t = PStr t)
    \<and> (parse_number t = None
         \<longleftrightarrow> (if CHR ''.'' \<in> set t then py_float t = None else py_int t = None))
    \<and> ((\<forall>c \<in> set t. \<not> is_digit c) \<longrightarrow> parse_number t = None)"
proof -
  have line: "result_line output = Some line"
    using assms(1-3) by (rule result_line_first)
  have c1: "java_parse_output output = Some (java_parse_value t)"
    by (simp add: java_parse_output_def line assms(4))
  have c2: "cpp_parse_output output = Some (cpp_parse_value t)"
    by (simp add: cpp_parse_output_def line assms(4))
  have c3: "CHR ''.'' \<in> set t \<and> py_float t = Some f \<longrightarrow>
         java_parse_value t = PFloat f \<and> cpp_parse_value t = PFloat f"
    by (simp add: java_parse_value_def cpp_parse_value_def parse_number_def)
  have c4: "decimal_number t \<longrightarrow> java_parse_value t = PFloat t \<and> cpp_parse_value t = PFloat t"
  proof
    assume d: "decimal_number t"
    have "parse_number t = Some (PFloat t)"
      using py_float_decimal_number [OF d] by (simp add: parse_number_def)
    then show "java_parse_value t = PFloat t \<and> cpp_parse_value t = PFloat t"
      by (simp add: java_parse_value_def cpp_parse_value_def)
  qed
  have c5: "CHR ''.'' \<notin> set t \<and> py_int t = Some i \<longrightarrow>
         java_parse_value t = PInt i
         \<and> (t \<noteq> ''1'' \<and> t \<noteq> ''0'' \<longrightarrow> cpp_parse_value t = PInt i)"
    by (simp add: java_parse_value_def cpp_parse_value_def parse_number_def)
  have c6: "signed_integer t \<and> length (snd (split_sign t)) \<le> int_max_str_digits \<longrightarrow>
         java_parse_value t = PInt (integer_value t)
         \<and> (t \<noteq> ''1'' \<and> t \<noteq> ''0'' \<longrightarrow> cpp_parse_value t = PInt (integer_value t))"
  proof
    assume s: "signed_integer t \<and> length (snd (split_sign t)) \<le> int_max_str_digits"
    have "parse_number t = Some (PInt (integer_value t))"
      using py_int_signed [of t] s by (simp add: parse_number_def)
    then show "java_parse_value t = PInt (integer_value t)
         \<and> (t \<noteq> ''1'' \<and> t \<noteq> ''0'' \<longrightarrow> cpp_parse_value t = PInt (integer_value t))"
      by (simp add: java_parse_value_def cpp_parse_value_def)
  qed
  have c7: "py_lower t = ''true'' \<longrightarrow> java_parse_value t = PBool True"
  proof
    assume w: "py_lower t = ''true''"
    show "java_parse_value t = PBool True"
      using true_not_number [OF w] w by (simp add: java_parse_value_def)
  qed
  have c8: "py_lower t = ''false'' \<longrightarrow> java_parse_value t = PBool False"
  proof
    assume w: "py_lower t = ''false''"
    show "java_parse_value t = PBool False"
      using false_not_number [OF w] w by (simp add: java_parse_value_def)
  qed
  have c9: "parse_number t = None \<and> py_lower t \<noteq> ''true'' \<and> py_lower t \<noteq> ''false'' \<longrightarrow>
         java_parse_value t = PStr t"
    by (simp add: java_parse_value_def)
  have c10: "parse_number t = None \<and> t \<noteq> ''1'' \<and> t \<noteq> ''0'' \<longrightarrow> cpp_parse_value t = PStr t"
    by (simp add: cpp_parse_value_def)
  have c11: "parse_number t = None
         \<longleftrightarrow> (if CHR ''.'' \<in> set t then py_float t = None else py_int t = None)"
    by (rule parse_number_None)
  have c12: "(\<forall>c \<in> set t. \<not> is_digit c) \<longrightarrow> parse_number t = None"
    using no_digit_not_number [of t] by blast
  show ?thesis
    by (intro conjI c1 c2 c3 c4 c5 c6 c7 c8 c9 c10 c11 c12)
qed

lemmas eval_text = LF_def startswith_def py_strip_def payload_def isspace_def is_digit_def

lemmas eval_number = decimal_number_def decimal_point_number_def exponent_part_def
  signed_integer_def integer_value_def purely_numeric_def split_sign_def nat_of_digits_def
  digit_val_def int_max_str_digits_def

theorem result_classification_witness:
  "java_parse_output (''log'' @ [LF] @ ''RESULT: 3.25 '' @ [LF]) = Some (PFloat ''3.25'')
   \<and> cpp_parse_output (''RESULT:42'' @ [LF] @ ''RESULT:7'') = Some (PInt 42)
   \<and> java_parse_output (''RESULT:-5'' @ [LF]) = Some (PInt (- 5))
   \<and> cpp_parse_output (''RESULT:-1.5'' @ [LF]) = Some (PFloat ''-1.5'')
   \<and> java_parse_output (''RESULT:1.0E10'' @ [LF]) = Some (PFloat ''1.0E10'')
   \<and> java_parse_output (''RESULT:True'') = Some (PBool True)
   \<and> cpp_parse_output (''RESULT:[0, 1]'' @ [LF]) = Some (PStr ''[0, 1]'')"
proof -
  have a: "java_parse_output (''log'' @ [LF] @ ''RESULT: 3.25 '' @ [LF]) = Some (PFloat ''3.25'')"
    using result_classification [of "''log'' @ [LF] @ ''RESULT: 3.25 '' @ [LF]" "[''log'']"
        "''RESULT: 3.25 ''" "[[]]" "''3.25''"]
    by (simp add: eval_text eval_number)
  have b: "cpp_parse_output (''RESULT:42'' @ [LF] @ ''RESULT:7'') = Some (PInt 42)"
    using result_classification [of "''RESULT:42'' @ [LF] @ ''RESULT:7''" "[]"
        "''RESULT:42''" "[''RESULT:7'']" "''42''"]
    by (simp add: eval_text eval_number)
  have c: "java_parse_output (''RESULT:-5'' @ [LF]) = Some (PInt (- 5))"
    using result_classification [of "''RESULT:-5'' @ [LF]" "[]" "''RESULT:-5''" "[[]]" "''-5''"]
    by (simp add: eval_text eval_number)
  have d: "cpp_parse_output (''RESULT:-1.5'' @ [LF]) = Some (PFloat ''-1.5'')"
    using result_classification [of "''RESULT:-1.5'' @ [LF]" "[]" "''RESULT:-1.5''" "[[]]" "''-1.5''"]
    by (simp add: eval_text eval_number)
  have e: "java_parse_output (''RESULT:1.0E10'' @ [LF]) = Some (PFloat ''1.0E10'')"
    using result_classification [of "''RESULT:1.0E10'' @ [LF]" "[]" "''RESULT:1.0E10''" "[[]]"
        "''1.0E10''"]
    by (simp add: eval_text eval_number)
  have f: "java_parse_output (''RESULT:True'') = Some (PBool True)"
    using result_classification [of "''RESULT:True''" "[]" "''RESULT:True''" "[]" "''True''"]
    by (simp add: eval_text py_lower_def lower_char_def char_of_eq_iff)
  have n: "parse_number ''[0, 1]'' = None"
    by (simp add: parse_number_def py_int_def split_sign_def digitpart_def eval_text)
  have g: "cpp_parse_output (''RESULT:[0, 1]'' @ [LF]) = Some (PStr ''[0, 1]'')"
    using result_classification [of "''RESULT:[0, 1]'' @ [LF]" "[]" "''RESULT:[0, 1]''" "[[]]"
        "''[0, 1]''"] n
    by (simp add: eval_text)
  show ?thesis
    by (intro conjI a b c d e f g)
qed

text \<open>
  The claim as stated fails: \<^verbatim>\<open>v1.2\<close> has a decimal point and is a String, not a Float,
  and the payload \<^verbatim>\<open>" ok "\<close> is returned without its white space, not verbatim.
\<close>

theorem result_classification_counterexample:
  "CHR ''.'' \<in> set ''v1.2''
   \<and> java_parse_output (''RESULT:v1.2'' @ [LF]) = Some (PStr ''v1.2'')
   \<and> cpp_parse_output (''RESULT:v1.2'' @ [LF]) = Some (PStr ''v1.2'')
   \<and> payload ''RESULT: ok '' = '' ok ''
   \<and> java_parse_output (''RESULT: ok '' @ [LF]) = Some (PStr ''ok'')"
proof -
  have n1: "parse_number ''v1.2'' = None"
    by (simp add: parse_number_def py_float_def split_sign_def digitpart_def is_floatnumber_def
        after_mantissa_def after_point_def py_lower_def lower_char_def eval_text)
  have n2: "parse_number ''ok'' = None"
    by (simp add: parse_number_def py_int_def split_sign_def digitpart_def eval_text)
  have l1: "result_line (''RESULT:v1.2'' @ [LF]) = Some ''RESULT:v1.2''"
    by (simp add: result_line_def eval_text)
  have l2: "result_line (''RESULT: ok '' @ [LF]) = Some ''RESULT: ok ''"
    by (simp add: result_line_def eval_text)
  have s1: "py_strip (payload ''RESULT:v1.2'') = ''v1.2''"
    by (simp add: eval_text)
  have s2: "py_strip (payload ''RESULT: ok '') = ''ok''"
    by (simp add: eval_text)
  have w: "py_lower ''v1.2'' \<noteq> ''true'' \<and> py_lower ''v1.2'' \<noteq> ''false''
      \<and> py_lower ''ok'' \<noteq> ''true'' \<and> py_lower ''ok'' \<noteq> ''false''"
    by (simp add: py_lower_def lower_char_def)
  have j1: "java_parse_output (''RESULT:v1.2'' @ [LF]) = Some (PStr ''v1.2'')"
    unfolding java_parse_output_def l1 by (simp add: s1 java_parse_value_def n1 w)
  have c1: "cpp_parse_output (''RESULT:v1.2'' @ [LF]) = Some (PStr ''v1.2'')"
    unfolding cpp_parse_output_def l1 by (simp add: s1 cpp_parse_value_def n1)
  have j2: "java_parse_output (''RESULT: ok '' @ [LF]) = Some (PStr ''ok'')"
    unfolding java_parse_output_def l2 by (simp add: s2 java_parse_value_def n2 w)
  have p: "payload ''RESULT: ok '' = '' ok ''"
    by (simp add: payload_def)
  have m: "CHR ''.'' \<in> set ''v1.2''"
    by simp
  show ?thesis
    by (intro conjI m j1 c1 p j2)
qed

text \<open>
  In \<^verbatim>\<open>execute_cpp\<close> the texts \<^verbatim>\<open>1\<close> and \<^verbatim>\<open>0\<close> never reach the Boolean branch:
  \<^verbatim>\<open>int\<close> accepts them first.
\<close>

lemma cpp_single_digit: "cpp_parse_value ''1'' = PInt 1 \<and> cpp_parse_value ''0'' = PInt 0"
  by (simp add: cpp_parse_value_def parse_number_def py_int_def split_sign_def digitpart_def
      nat_of_digits_def digit_val_def int_max_str_digits_def eval_text)


section \<open>Exceptions\<close>

text \<open>
  An exception is its class name (\<^verbatim>\<open>type(e).__name__\<close>), its text (\<^verbatim>\<open>str(e)\<close>) and
  whether its class derives from \<^verbatim>\<open>Exception\<close>, which is what \<^verbatim>\<open>except Exception\<close>
  tests: \<^verbatim>\<open>SystemExit\<close>, \<^verbatim>\<open>KeyboardInterrupt\<close> and \<^verbatim>\<open>GeneratorExit\<close> do not. The text is
  what the method \<^verbatim>\<open>__str__\<close> of the class answers; submitted code can define a class
  whose \<^verbatim>\<open>__str__\<close> raises instead, and \<open>Unprintable\<close> is an exception of such a class,
  with the exception that forming the text \<^verbatim>\<open>f'{type(e).__name__}: {e}'\<close> raises.
\<close>

datatype error =
    Error (is_Exception: bool) (type_name: string) (message: string)
  | Unprintable (is_Exception: bool) (type_name: string) (str_raises: error)

definition RuntimeError :: "string \<Rightarrow> error" where
  "RuntimeError msg = Error True ''RuntimeError'' msg"

definition NameError :: "string \<Rightarrow> error" where
  "NameError msg = Error True ''NameError'' msg"

definition TypeError :: "string \<Rightarrow> error" where
  "TypeError msg = Error True ''TypeError'' msg"

definition ValueError :: "string \<Rightarrow> error" where
  "ValueError msg = Error True ''ValueError'' msg"

definition JSONDecodeError :: "string \<Rightarrow> error" where
  "JSONDecodeError msg = Error True ''JSONDecodeError'' msg"

text \<open>\<^verbatim>\<open>f'{type(e).__name__}: {e}'\<close>: the text, or the exception that forming it raises.\<close>

definition format_exception :: "error \<Rightarrow> error + string" where
  "format_exception e =
     (case e of
        Error b name msg \<Rightarrow> Inr (name @ '': '' @ msg)
      | Unprintable b name x \<Rightarrow> Inl x)"

text \<open>\<^verbatim>\<open>subprocess.TimeoutExpired(cmd, timeout)\<close>\<close>

definition TimeoutExpired :: "string list \<Rightarrow> nat \<Rightarrow> error" where
  "TimeoutExpired cmd timeout =
     Error True ''TimeoutExpired''
       (''Command '' @ [squote] @ py_repr (PList (map PStr cmd)) @ [squote]
        @ '' timed out after '' @ str_nat timeout @ '' seconds'')"

section \<open>The \<^verbatim>\<open>json\<close> module\<close>

subsection \<open>\<^verbatim>\<open>json.dumps\<close>\<close>

text \<open>
  \<^verbatim>\<open>json.dumps(obj)\<close> with the options left at their defaults: the separators are
  \<^verbatim>\<open>", "\<close> and \<^verbatim>\<open>": "\<close>, and in a string every character outside the printable ASCII
  range is escaped, by its short form or as \<^verbatim>\<open>\u00hh\<close>. The floats that are no numbers are
  written \<^verbatim>\<open>NaN\<close>, \<^verbatim>\<open>Infinity\<close> and \<^verbatim>\<open>-Infinity\<close>.
\<close>

definition hex4 :: "nat \<Rightarrow> string" where
  "hex4 n = [hex_char (n div 4096 mod 16), hex_char (n div 256 mod 16),
             hex_char (n div 16 mod 16), hex_char (n mod 16)]"

definition json_char :: "char \<Rightarrow> string" where
  "json_char c =
     (if c = dquote then [backslash, dquote]
      else if c = backslash then [backslash, backslash]
      else if c = LF then [backslash, CHR ''n'']
      else if c = CR then [backslash, CHR ''r'']
      else if c = TAB then [backslash, CHR ''t'']
      else if c = CHR 0x08 then [backslash, CHR ''b'']
      else if c = CHR 0x0C then [backslash, CHR ''f'']
      else if 32 \<le> (of_char c :: nat) \<and> (of_char c :: nat) < 127 then [c]
      else [backslash, CHR ''u''] @ hex4 (of_char c))"

definition json_string :: "string \<Rightarrow> string" where
  "json_string s = [dquote] @ concat (map json_char s) @ [dquote]"

definition json_float :: "string \<Rightarrow> string" where
  "json_float f =
     (case split_sign f of
        (neg, body) \<Rightarrow>
          if py_lower body = ''nan'' then ''NaN''
          else if py_lower body = ''inf'' \<or> py_lower body = ''infinity''
          then (if neg then ''-Infinity'' else ''Infinity'')
          else f)"

fun json_dumps :: "pyval \<Rightarrow> string" where
  "json_dumps PNone = ''null''"
| "json_dumps (PBool b) = (if b then ''true'' else ''false'')"
| "json_dumps (PInt i) = str_int i"
| "json_dumps (PFloat f) = json_float f"
| "json_dumps (PStr s) = json_string s"
| "json_dumps (PList xs) = ''['' @ join '', '' (map json_dumps xs) @ '']''"
| "json_dumps (PDict kvs) =
     ''{'' @ join '', '' (map (\<lambda>kv. json_string (fst kv) @ '': '' @ json_dumps (snd kv)) kvs) @ ''}''"

subsection \<open>\<^verbatim>\<open>json.loads\<close>\<close>

text \<open>
  The decoder of the module, function by function: \<^verbatim>\<open>scanstring\<close>, the number pattern,
  \<^verbatim>\<open>scan_once\<close>, \<^verbatim>\<open>JSONArray\<close>, \<^verbatim>\<open>JSONObject\<close> and \<^verbatim>\<open>decode\<close>. Each reads a value at the
  start of a text and answers it with the text left, or fails: the text is no JSON, or
  an integer has more digits than \<^verbatim>\<open>int\<close> converts. Left out: an escape \<^verbatim>\<open>\uXXXX\<close> of a
  code point from 256 on, which the strings of this development do not hold and which
  is answered as no JSON; and the interpreter's bound on the depth of nesting.
\<close>

datatype 'a scanned =
    Scanned 'a string
  | Invalid
  | Too_many_digits nat
  | Out_of_fuel

definition json_ws :: "char \<Rightarrow> bool" where
  "json_ws c = (c = CHR 0x20 \<or> c = TAB \<or> c = LF \<or> c = CR)"

definition skip_ws :: "string \<Rightarrow> string" where
  "skip_ws s = dropWhile json_ws s"

definition hex_val :: "char \<Rightarrow> nat option" where
  "hex_val c =
     (let n = (of_char c :: nat) in
      if 48 \<le> n \<and> n \<le> 57 then Some (n - 48)
      else if 97 \<le> n \<and> n \<le> 102 then Some (n - 87)
      else if 65 \<le> n \<and> n \<le> 70 then Some (n - 55)
      else None)"

text \<open>The four hexadecimal digits after \<^verbatim>\<open>\u\<close>, for a code point below 256.\<close>

definition unicode_escape :: "string \<Rightarrow> char option" where
  "unicode_escape hs =
     (case map hex_val hs of
        [Some a, Some b, Some c, Some d] \<Rightarrow>
          if a = 0 \<and> b = 0 then Some (char_of (16 * c + d)) else None
      | _ \<Rightarrow> None)"

definition json_escape :: "char \<Rightarrow> char option" where
  "json_escape e =
     (if e = dquote then Some dquote
      else if e = backslash then Some backslash
      else if e = CHR ''/'' then Some (CHR ''/'')
      else if e = CHR ''b'' then Some (CHR 0x08)
      else if e = CHR ''f'' then Some (CHR 0x0C)
      else if e = CHR ''n'' then Some LF
      else if e = CHR ''r'' then Some CR
      else if e = CHR ''t'' then Some TAB
      else None)"

text \<open>
  \<^verbatim>\<open>scanstring\<close>, from the character after the opening quote: the text up to the closing
  quote, decoded, and the text after that quote. A control character is an error.
\<close>

fun scanstring :: "string \<Rightarrow> (string \<times> string) option" where
  "scanstring [] = None"
| "scanstring (c # cs) =
     (if c = dquote then Some ([], cs)
      else if c = backslash then
        (case cs of
           [] \<Rightarrow> None
         | e # r \<Rightarrow>
             if e = CHR ''u'' then
               (case unicode_escape (take 4 r) of
                  None \<Rightarrow> None
                | Some x \<Rightarrow> map_option (apfst ((#) x)) (scanstring (drop 4 r)))
             else
               (case json_escape e of
                  None \<Rightarrow> None
                | Some x \<Rightarrow> map_option (apfst ((#) x)) (scanstring r)))
      else if (of_char c :: nat) < 32 then None
      else map_option (apfst ((#) c)) (scanstring cs))"

text \<open>
  The number pattern \<^verbatim>\<open>(-?(?:0|[1-9]\d*))(\.\d+)?([eE][-+]?\d+)?\<close>: the exponent at the
  start of a text (empty when there is none), and the number at the start of a text, an
  \<^verbatim>\<open>int\<close> when it has neither fraction nor exponent and a \<^verbatim>\<open>float\<close> otherwise.
\<close>

definition exponent_at :: "string \<Rightarrow> string" where
  "exponent_at s =
     (case s of
        [] \<Rightarrow> []
      | e # r \<Rightarrow>
          if e = CHR ''e'' \<or> e = CHR ''E'' then
            (let sg = (case r of
                         [] \<Rightarrow> []
                       | c # r' \<Rightarrow> if c = CHR ''+'' \<or> c = CHR ''-'' then [c] else []);
                 ds = takeWhile is_digit (drop (length sg) r)
             in if ds = [] then [] else e # sg @ ds)
          else [])"

definition fraction_at :: "string \<Rightarrow> string" where
  "fraction_at s =
     (case s of
        [] \<Rightarrow> []
      | p # r \<Rightarrow>
          if p = CHR ''.'' \<and> takeWhile is_digit r \<noteq> [] then p # takeWhile is_digit r else [])"

definition match_number :: "string \<Rightarrow> pyval scanned" where
  "match_number s =
     (let minus = (case s of [] \<Rightarrow> [] | c # cs \<Rightarrow> if c = CHR ''-'' then [c] else []);
          s1 = drop (length minus) s
      in case s1 of
           [] \<Rightarrow> Invalid
         | c # cs \<Rightarrow>
             if \<not> is_digit c then Invalid
             else
               (let digits = (if c = CHR ''0'' then [c] else c # takeWhile is_digit cs);
                    s2 = drop (length digits) s1;
                    frac = fraction_at s2;
                    s3 = drop (length frac) s2;
                    exp = exponent_at s3;
                    s4 = drop (length exp) s3
                in if frac = [] \<and> exp = [] then
                     (if int_max_str_digits < length digits then Too_many_digits (length digits)
                      else Scanned (PInt (if minus = [] then int (nat_of_digits digits)
                                          else - int (nat_of_digits digits))) s4)
                   else Scanned (PFloat (minus @ digits @ frac @ exp)) s4))"

text \<open>\<^verbatim>\<open>dict(pairs)\<close>, item by item: a key that is present keeps its place and takes the new value.\<close>

definition dict_set :: "(string \<times> pyval) list \<Rightarrow> string \<Rightarrow> pyval \<Rightarrow> (string \<times> pyval) list" where
  "dict_set kvs k v =
     (if k \<in> fst ` set kvs then map (\<lambda>kv. if fst kv = k then (k, v) else kv) kvs
      else kvs @ [(k, v)])"

text \<open>
  The part of \<^verbatim>\<open>scan_once\<close> for a value that is no string, object or array: the three
  literals, a number, and the three constants that are tried when no number matches.
\<close>

definition scan_literal :: "string \<Rightarrow> pyval scanned" where
  "scan_literal s =
     (if startswith s ''null'' then Scanned PNone (drop 4 s)
      else if startswith s ''true'' then Scanned (PBool True) (drop 4 s)
      else if startswith s ''false'' then Scanned (PBool False) (drop 5 s)
      else
        (case match_number s of
           Invalid \<Rightarrow>
             if startswith s ''NaN'' then Scanned (PFloat ''nan'') (drop 3 s)
             else if startswith s ''Infinity'' then Scanned (PFloat ''inf'') (drop 8 s)
             else if startswith s ''-Infinity'' then Scanned (PFloat ''-inf'') (drop 9 s)
             else Invalid
         | number \<Rightarrow> number))"

text \<open>
  \<^verbatim>\<open>scan_once\<close> reads one value; \<open>json_array\<close> is the loop of \<^verbatim>\<open>JSONArray\<close>, entered at
  the first item with the items read so far, and \<open>json_object\<close> the loop of
  \<^verbatim>\<open>JSONObject\<close>, entered after the opening quote of a key. The first argument bounds
  the number of calls still allowed.
\<close>

fun scan_once :: "nat \<Rightarrow> string \<Rightarrow> pyval scanned"
  and json_array :: "nat \<Rightarrow> string \<Rightarrow> pyval list \<Rightarrow> pyval scanned"
  and json_object :: "nat \<Rightarrow> string \<Rightarrow> (string \<times> pyval) list \<Rightarrow> pyval scanned" where
  "scan_once 0 s = Out_of_fuel"
| "scan_once (Suc n) s =
     (case s of
        [] \<Rightarrow> Invalid
      | c # cs \<Rightarrow>
          if c = dquote then
            (case scanstring cs of None \<Rightarrow> Invalid | Some (t, r) \<Rightarrow> Scanned (PStr t) r)
          else if c = CHR 0x7B then
            (case skip_ws cs of
               [] \<Rightarrow> Invalid
             | q # r \<Rightarrow>
                 if q = CHR 0x7D then Scanned (PDict []) r
                 else if q = dquote then json_object n r []
                 else Invalid)
          else if c = CHR 0x5B then
            (case skip_ws cs of
               [] \<Rightarrow> Invalid
             | q # r \<Rightarrow> if q = CHR 0x5D then Scanned (PList []) r else json_array n (q # r) [])
          else scan_literal s)"
| "json_array 0 s items = Out_of_fuel"
| "json_array (Suc n) s items =
     (case scan_once n s of
        Scanned v r \<Rightarrow>
          (case skip_ws r of
             [] \<Rightarrow> Invalid
           | q # r' \<Rightarrow>
               if q = CHR 0x5D then Scanned (PList (items @ [v])) r'
               else if q = CHR '','' then json_array n (skip_ws r') (items @ [v])
               else Invalid)
      | failure \<Rightarrow> failure)"
| "json_object 0 s pairs = Out_of_fuel"
| "json_object (Suc n) s pairs =
     (case scanstring s of
        None \<Rightarrow> Invalid
      | Some (key, r) \<Rightarrow>
          (case skip_ws r of
             [] \<Rightarrow> Invalid
           | q # r1 \<Rightarrow>
               if q \<noteq> CHR '':'' then Invalid
               else
                 (case scan_once n (skip_ws r1) of
                    Scanned v r2 \<Rightarrow>
                      (case skip_ws r2 of
                         [] \<Rightarrow> Invalid
                       | q2 # r3 \<Rightarrow>
                           if q2 = CHR 0x7D then Scanned (PDict (dict_set pairs key v)) r3
                           else if q2 = CHR '','' then
                             (case skip_ws r3 of
                                [] \<Rightarrow> Invalid
                              | q3 # r4 \<Rightarrow>
                                  if q3 = dquote then json_object n r4 (dict_set pairs key v)
                                  else Invalid)
                           else Invalid)
                  | failure \<Rightarrow> failure)))"

text \<open>
  \<^verbatim>\<open>json.loads(s)\<close>: one value between white space, and nothing else. \<^verbatim>\<open>JSONDecodeError\<close>
  carries a wording, with the place of the error, that is not computed here: it is given
  by \<open>wording\<close>. Twice the length of the text is more calls than reading it takes.
\<close>

definition json_loads :: "(string \<Rightarrow> string) \<Rightarrow> string \<Rightarrow> error + pyval" where
  "json_loads wording s =
     (case scan_once (2 * length s + 1) (skip_ws s) of
        Scanned v r \<Rightarrow> if skip_ws r = [] then Inr v else Inl (JSONDecodeError (wording s))
      | Too_many_digits n \<Rightarrow>
          Inl (ValueError (''Exceeds the limit ('' @ str_nat int_max_str_digits
                 @ '' digits) for integer string conversion: value has '' @ str_nat n
                 @ '' digits; use sys.set_int_max_str_digits() to increase the limit''))
      | Invalid \<Rightarrow> Inl (JSONDecodeError (wording s))
      | Out_of_fuel \<Rightarrow> Inl (JSONDecodeError (wording s)))"

text \<open>
  The bound on the calls is never met: a value that is read is a non-empty part of the
  text, so that twice the length of the text, and one, is more calls than reading takes.
\<close>

lemma skip_ws_length: "length (skip_ws s) \<le> length s"
  by (simp add: skip_ws_def length_dropWhile_le)

lemma skip_ws_Cons: "skip_ws s = q # r \<Longrightarrow> length r < length s"
  using skip_ws_length [of s] by simp

lemma scanstring_shorter: "scanstring s = Some (t, r) \<Longrightarrow> length r < length s"
proof (induction s arbitrary: t r rule: scanstring.induct)
  case 1
  then show ?case by simp
next
  case (2 c cs)
  show ?case
  proof (cases "c = dquote")
    case True
    then show ?thesis using 2(4) by simp
  next
    case notq: False
    show ?thesis
    proof (cases "c = backslash")
      case True
      then obtain e r0 where cs: "cs = e # r0"
        using 2(4) notq by (cases cs) auto
      show ?thesis
      proof (cases "e = CHR ''u''")
        case u: True
        then obtain x t' where "unicode_escape (take 4 r0) = Some x"
          and "scanstring (drop 4 r0) = Some (t', r)"
          using 2(4) notq True cs by (auto split: option.splits)
        then have "length r < length (drop 4 r0)"
          using 2(1) [OF notq True cs u] by blast
        then show ?thesis using cs by simp
      next
        case nu: False
        then obtain x t' where x: "json_escape e = Some x"
          and "scanstring r0 = Some (t', r)"
          using 2(4) notq True cs by (auto split: option.splits)
        then have "length r < length r0"
          using 2(2) [OF notq True cs nu x] by blast
        then show ?thesis using cs by simp
      qed
    next
      case False
      then obtain t' where c: "\<not> (of_char c :: nat) < 32" and "scanstring cs = Some (t', r)"
        using 2(4) notq by (auto split: if_splits)
      then have "length r < length cs"
        using 2(3) [OF notq False c] by blast
      then show ?thesis by simp
    qed
  qed
qed

lemma match_number_shorter: "match_number s = Scanned v r \<Longrightarrow> length r < length s"
  by (auto simp: match_number_def Let_def split: list.splits if_splits)

lemma match_number_fuel: "match_number s \<noteq> Out_of_fuel"
  by (auto simp: match_number_def Let_def split: list.splits if_splits)

definition consumes :: "pyval scanned \<Rightarrow> string \<Rightarrow> bool" where
  "consumes res s =
     (case res of Scanned v r \<Rightarrow> length r < length s | Out_of_fuel \<Rightarrow> False | _ \<Rightarrow> True)"

lemma consumes_simps:
  "consumes (Scanned v r) s = (length r < length s)"
  "consumes Invalid s"
  "consumes (Too_many_digits k) s"
  "\<not> consumes Out_of_fuel s"
  by (simp_all add: consumes_def)

lemma consumes_longer: "consumes res r \<Longrightarrow> length r \<le> length s \<Longrightarrow> consumes res s"
  by (cases res) (simp_all add: consumes_def)

lemma consumes_number: "consumes (match_number s) s"
  using match_number_shorter [of s] match_number_fuel [of s]
  by (cases "match_number s") (simp_all add: consumes_def)

lemma startswith_drop:
  "startswith s w \<Longrightarrow> w \<noteq> [] \<Longrightarrow> length (drop (length w) s) < length s"
  by (cases s) (auto simp: startswith_def)

lemma consumes_literal: "consumes (scan_literal s) s"
proof -
  have d: "consumes (Scanned v (drop k s)) s" if "startswith s w" and "k = length w" and "w \<noteq> []"
    for v w k
    using startswith_drop [OF that(1,3)] that(2) by (simp add: consumes_def)
  note lits = d [of "''null''" 4 PNone] d [of "''true''" 4 "PBool True"]
    d [of "''false''" 5 "PBool False"] d [of "''NaN''" 3 "PFloat ''nan''"]
    d [of "''Infinity''" 8 "PFloat ''inf''"] d [of "''-Infinity''" 9 "PFloat ''-inf''"]
  show ?thesis
  proof (cases "match_number s")
    case (Scanned v r)
    then show ?thesis
      using lits consumes_number [of s] by (simp add: scan_literal_def)
  next
    case Invalid
    then show ?thesis
      using lits by (simp add: scan_literal_def consumes_simps(2))
  next
    case (Too_many_digits k)
    then show ?thesis
      using lits by (simp add: scan_literal_def consumes_simps(3))
  next
    case Out_of_fuel
    then show ?thesis
      using match_number_fuel [of s] by simp
  qed
qed

lemma scan_consumes:
  "2 * length s < n \<Longrightarrow> consumes (scan_once n s) s"
  "2 * length s + 1 < n \<Longrightarrow> consumes (json_array n s items) s"
  "2 * length s + 1 < n \<Longrightarrow> consumes (json_object n s pairs) s"
proof (induction n s and n s items and n s pairs rule: scan_once_json_array_json_object.induct)
  case (1 s)
  then show ?case by simp
next
  case (2 n s)
  show ?case
  proof (cases s)
    case Nil
    then show ?thesis by (simp add: consumes_simps)
  next
    case (Cons c cs)
    have fuel: "2 * length cs + 1 < n"
      using 2(3) Cons by simp
    consider (str) "c = dquote"
      | (obj) "c \<noteq> dquote" "c = CHR 0x7B"
      | (arr) "c \<noteq> dquote" "c \<noteq> CHR 0x7B" "c = CHR 0x5B"
      | (other) "c \<noteq> dquote" "c \<noteq> CHR 0x7B" "c \<noteq> CHR 0x5B"
      by blast
    then show ?thesis
    proof cases
      case str
      show ?thesis
      proof (cases "scanstring cs")
        case None
        then show ?thesis using Cons str by (simp add: consumes_simps)
      next
        case (Some p)
        obtain t r where p: "p = (t, r)" by (cases p) auto
        have "length r < length cs"
          using Some p scanstring_shorter by blast
        then show ?thesis using Cons str Some p by (simp add: consumes_simps)
      qed
    next
      case obj
      show ?thesis
      proof (cases "skip_ws cs")
        case Nil
        then show ?thesis using Cons obj by (simp add: consumes_simps)
      next
        case inner: (Cons q r)
        have r: "length r < length cs"
          using inner by (rule skip_ws_Cons)
        show ?thesis
        proof (cases "q = dquote")
          case True
          have ne: "q \<noteq> CHR 0x7D"
            using True by (simp add: dquote_def)
          have enough: "2 * length r + 1 < n"
            using r fuel by linarith
          have "consumes (json_object n r []) r"
            using 2(1) [OF Cons obj(1) obj(2) inner ne True enough] .
          then have "consumes (json_object n r []) s"
            using r Cons by (elim consumes_longer) simp_all
          moreover have "scan_once (Suc n) s = json_object n r []"
            unfolding Cons using obj inner True ne by simp
          ultimately show ?thesis
            by simp
        next
          case False
          have "scan_once (Suc n) s = (if q = CHR 0x7D then Scanned (PDict []) r else Invalid)"
            unfolding Cons using obj inner False by simp
          then show ?thesis
            using r Cons by (simp add: consumes_simps)
        qed
      qed
    next
      case arr
      show ?thesis
      proof (cases "skip_ws cs")
        case Nil
        then show ?thesis using Cons arr by (simp add: consumes_simps)
      next
        case inner: (Cons q r)
        have r: "length r < length cs"
          using inner by (rule skip_ws_Cons)
        show ?thesis
        proof (cases "q = CHR 0x5D")
          case True
          have "scan_once (Suc n) s = Scanned (PList []) r"
            unfolding Cons using arr inner True by simp
          then show ?thesis
            using r Cons by (simp add: consumes_simps)
        next
          case False
          have enough: "2 * length (q # r) + 1 < n"
            using r fuel by simp
          have "consumes (json_array n (q # r) []) (q # r)"
            using 2(2) [OF Cons arr(1) arr(2) arr(3) inner False enough] .
          then have "consumes (json_array n (q # r) []) s"
            using r Cons by (elim consumes_longer) simp_all
          moreover have "scan_once (Suc n) s = json_array n (q # r) []"
            unfolding Cons using arr inner False by simp
          ultimately show ?thesis
            by simp
        qed
      qed
    next
      case other
      show ?thesis
        using other Cons consumes_literal [of s] by simp
    qed
  qed
next
  case (3 s items)
  then show ?case by simp
next
  case (4 n s items)
  have fuel: "2 * length s < n"
    using 4(3) by simp
  have once: "consumes (scan_once n s) s"
    using 4(1) fuel by simp
  show ?case
  proof (cases "scan_once n s")
    case (Scanned v r)
    have r: "length r < length s"
      using once Scanned by (simp add: consumes_simps)
    show ?thesis
    proof (cases "skip_ws r")
      case Nil
      then show ?thesis using Scanned by (simp add: consumes_simps)
    next
      case (Cons q r')
      have r': "length r' < length r"
        using Cons by (rule skip_ws_Cons)
      show ?thesis
      proof (cases "q = CHR 0x5D")
        case True
        then show ?thesis using Scanned Cons r r' by (simp add: consumes_simps)
      next
        case False
        show ?thesis
        proof (cases "q = CHR '',''")
          case comma: True
          have len: "length (skip_ws r') \<le> length r'"
            by (rule skip_ws_length)
          have "consumes (json_array n (skip_ws r') (items @ [v])) (skip_ws r')"
            using 4(2) [OF Scanned Cons False comma] len r r' fuel by simp
          then have "consumes (json_array n (skip_ws r') (items @ [v])) s"
            using len r r' by (elim consumes_longer) simp_all
          then show ?thesis
            using Scanned Cons False comma by simp
        next
          case False
          then show ?thesis
            using Scanned Cons \<open>q \<noteq> CHR 0x5D\<close> by (simp add: consumes_simps)
        qed
      qed
    qed
  next
    case Invalid
    then show ?thesis by (simp add: consumes_simps)
  next
    case (Too_many_digits k)
    then show ?thesis by (simp add: consumes_simps)
  next
    case Out_of_fuel
    then show ?thesis using once by (simp add: consumes_simps)
  qed
next
  case (5 s pairs)
  then show ?case by simp
next
  case (6 n s pairs)
  show ?case
  proof (cases "scanstring s")
    case None
    then show ?thesis by (simp add: consumes_simps)
  next
    case (Some p)
    obtain key r where p: "p = (key, r)" by (cases p) auto
    have r: "length r < length s"
      using Some p scanstring_shorter by blast
    show ?thesis
    proof (cases "skip_ws r")
      case Nil
      then show ?thesis using Some p by (simp add: consumes_simps)
    next
      case (Cons q r1)
      have r1: "length r1 < length r"
        using Cons by (rule skip_ws_Cons)
      show ?thesis
      proof (cases "q = CHR '':''")
        case False
        then show ?thesis using Some p Cons by (simp add: consumes_simps)
      next
        case colon: True
        have len: "length (skip_ws r1) \<le> length r1"
          by (rule skip_ws_length)
        have once: "consumes (scan_once n (skip_ws r1)) (skip_ws r1)"
          using 6(1) [OF Some p [symmetric] Cons] colon len r r1 6(3) by simp
        show ?thesis
        proof (cases "scan_once n (skip_ws r1)")
          case (Scanned v r2)
          have r2: "length r2 < length (skip_ws r1)"
            using once Scanned by (simp add: consumes_simps)
          show ?thesis
          proof (cases "skip_ws r2")
            case Nil
            then show ?thesis using Some p Cons colon Scanned by (simp add: consumes_simps)
          next
            case inner: (Cons q2 r3)
            have r3: "length r3 < length r2"
              using inner by (rule skip_ws_Cons)
            show ?thesis
            proof (cases "q2 = CHR 0x7D")
              case True
              then show ?thesis
                using Some p Cons colon Scanned inner r r1 len r2 r3 by (simp add: consumes_simps)
            next
              case nb: False
              show ?thesis
              proof (cases "q2 = CHR '',''")
                case False
                then show ?thesis
                  using Some p Cons colon Scanned inner nb by (simp add: consumes_simps)
              next
                case comma: True
                show ?thesis
                proof (cases "skip_ws r3")
                  case Nil
                  then show ?thesis
                    using Some p Cons colon Scanned inner nb comma by (simp add: consumes_simps)
                next
                  case last: (Cons q3 r4)
                  have r4: "length r4 < length r3"
                    using last by (rule skip_ws_Cons)
                  show ?thesis
                  proof (cases "q3 = dquote")
                    case False
                    then show ?thesis
                      using Some p Cons colon Scanned inner nb comma last
                      by (simp add: consumes_simps)
                  next
                    case True
                    have "consumes (json_object n r4 (dict_set pairs key v)) r4"
                      using 6(2) [OF Some p [symmetric] Cons _ Scanned inner nb comma last True]
                        colon r r1 len r2 r3 r4 6(3) by simp
                    then have "consumes (json_object n r4 (dict_set pairs key v)) s"
                      using r r1 len r2 r3 r4 by (elim consumes_longer) simp_all
                    then show ?thesis
                      using Some p Cons colon Scanned inner nb comma last True by simp
                  qed
                qed
              qed
            qed
          qed
        next
          case Invalid
          then show ?thesis using Some p Cons colon by (simp add: consumes_simps)
        next
          case (Too_many_digits k)
          then show ?thesis using Some p Cons colon by (simp add: consumes_simps)
        next
          case Out_of_fuel
          then show ?thesis using once by (simp add: consumes_simps)
        qed
      qed
    qed
  qed
qed

lemma scan_once_fuel: "scan_once (2 * length s + 1) (skip_ws s) \<noteq> Out_of_fuel"
proof -
  have "2 * length (skip_ws s) < 2 * length s + 1"
    using skip_ws_length [of s] by simp
  then have "consumes (scan_once (2 * length s + 1) (skip_ws s)) (skip_ws s)"
    by (rule scan_consumes(1))
  then show ?thesis
    by (auto simp: consumes_simps)
qed

section \<open>Submitted Python code\<close>

text \<open>
  What running a piece of submitted code does, as far as the caller can tell: it returns
  a value, or raises, in both cases after writing some text to the standard output and to
  the standard error, or it never comes back. Under \<^verbatim>\<open>redirect_stdout\<close> and
  \<^verbatim>\<open>redirect_stderr\<close> the two streams are the \<^verbatim>\<open>StringIO\<close> objects of the caller, and the
  code can close them (\<^verbatim>\<open>sys.stdout.close()\<close>): \<open>Closes\<close> is code that comes back, raising
  (\<open>Inl\<close>) or returning (\<open>Inr\<close>), with the text of each stream, \<open>None\<close> for a stream that
  it has closed.
\<close>

datatype 'a behaviour =
    Returns 'a string string
  | Raises error string string
  | Diverges
  | Closes "error + 'a" "string option" "string option"

text \<open>
  How the code comes back, if it does, and what the two streams hold then; the streams
  after a second piece of code has run on them; and \<^verbatim>\<open>StringIO.getvalue()\<close>, which raises
  \<^verbatim>\<open>ValueError\<close> on a closed stream.
\<close>

definition comes_back :: "'a behaviour \<Rightarrow> ((error + 'a) \<times> string option \<times> string option) option" where
  "comes_back b =
     (case b of
        Returns v out err \<Rightarrow> Some (Inr v, Some out, Some err)
      | Raises e out err \<Rightarrow> Some (Inl e, Some out, Some err)
      | Diverges \<Rightarrow> None
      | Closes r out err \<Rightarrow> Some (r, out, err))"

definition written_after :: "string option \<Rightarrow> string option \<Rightarrow> string option" where
  "written_after first second =
     (case first of
        None \<Rightarrow> None
      | Some a \<Rightarrow> (case second of None \<Rightarrow> None | Some b \<Rightarrow> Some (a @ b)))"

definition getvalue :: "string option \<Rightarrow> error + string" where
  "getvalue stream =
     (case stream of
        None \<Rightarrow> Inl (ValueError ''I/O operation on closed file'')
      | Some txt \<Rightarrow> Inr txt)"

text \<open>
  What a name of the namespace is bound to after \<^verbatim>\<open>exec(code, namespace)\<close>: a function,
  given by what a call with given arguments does; a value; or an instance of a class of
  the submitted code, given by what its truth test (\<^verbatim>\<open>__bool__\<close> or \<^verbatim>\<open>__len__\<close>) does and
  by what a call of it does.
\<close>

datatype pyobj =
    Function "pyval list \<Rightarrow> pyval behaviour"
  | Object pyval
  | Instance "bool behaviour" "pyval list \<Rightarrow> pyval behaviour"

type_synonym namespace = "string \<rightharpoonup> pyobj"

definition class_name :: "pyval \<Rightarrow> string" where
  "class_name v =
     (case v of
        PNone \<Rightarrow> ''NoneType''
      | PBool b \<Rightarrow> ''bool''
      | PInt i \<Rightarrow> ''int''
      | PFloat f \<Rightarrow> ''float''
      | PStr s \<Rightarrow> ''str''
      | PList xs \<Rightarrow> ''list''
      | PDict kvs \<Rightarrow> ''dict'')"

text \<open>The truth test of \<^verbatim>\<open>if not func\<close>.\<close>

definition truth_test :: "pyobj \<Rightarrow> bool behaviour" where
  "truth_test f =
     (case f of
        Function g \<Rightarrow> Returns True [] []
      | Object v \<Rightarrow> Returns (truthy v) [] []
      | Instance test g \<Rightarrow> test)"

text \<open>\<^verbatim>\<open>func(*test_args)\<close>\<close>

definition call :: "pyobj \<Rightarrow> pyval list \<Rightarrow> pyval behaviour" where
  "call f args =
     (case f of
        Function g \<Rightarrow> g args
      | Object v \<Rightarrow>
          Raises (TypeError ([squote] @ class_name v @ [squote] @ '' object is not callable'')) [] []
      | Instance test g \<Rightarrow> g args)"

section \<open>The Python executor\<close>

text \<open>
  The clause \<^verbatim>\<open>except Exception as e\<close> of \<^verbatim>\<open>execute_python\<close>, with the stream that
  captures the standard output. An exception of another kind passes through to the
  caller. The clause reads the stream and then forms the text of the exception; what
  either of the two raises leaves \<^verbatim>\<open>execute_python\<close>.
\<close>

definition except_handler ::
  "error \<Rightarrow> string option \<Rightarrow> (error + pyval \<times> string \<times> string) option" where
  "except_handler e stdout_capture =
     (if is_Exception e then
        (case getvalue stdout_capture of
           Inl x \<Rightarrow> Some (Inl x)
         | Inr out \<Rightarrow>
             (case format_exception e of
                Inl x \<Rightarrow> Some (Inl x)
              | Inr txt \<Rightarrow> Some (Inr (PNone, out, txt))))
      else Some (Inl e))"

text \<open>
  \<^verbatim>\<open>return result, stdout_capture.getvalue(), stderr_capture.getvalue()\<close>, inside the
  \<^verbatim>\<open>try\<close> block: the \<^verbatim>\<open>ValueError\<close> of a closed stream goes to the \<^verbatim>\<open>except\<close> clause.
\<close>

definition return_statement ::
  "pyval \<Rightarrow> string option \<Rightarrow> string option \<Rightarrow> (error + pyval \<times> string \<times> string) option" where
  "return_statement result stdout_capture stderr_capture =
     (case getvalue stdout_capture of
        Inl x \<Rightarrow> except_handler x stdout_capture
      | Inr out \<Rightarrow>
          (case getvalue stderr_capture of
             Inl x \<Rightarrow> except_handler x stdout_capture
           | Inr err \<Rightarrow> Some (Inr (result, out, err))))"

text \<open>
  \<^verbatim>\<open>execute_python(code, test_args, problem_name)\<close>. The code is given by what
  \<^verbatim>\<open>exec(code, namespace)\<close> does; it runs inside the caller, under no timeout. The result
  is \<open>None\<close> when the call never returns, \<open>Some (Inl e)\<close> when it raises \<open>e\<close>, and
  \<open>Some (Inr (result, stdout, stderr))\<close> when it returns.
\<close>

definition execute_python ::
  "namespace behaviour \<Rightarrow> pyval list \<Rightarrow> string \<Rightarrow> (error + pyval \<times> string \<times> string) option" where
  "execute_python code test_args problem_name =
     (case comes_back code of
        None \<Rightarrow> None
      | Some (Inl e, out, err) \<Rightarrow> except_handler e out
      | Some (Inr namespace, out, err) \<Rightarrow>
          (case namespace problem_name of
             None \<Rightarrow> except_handler (NameError (''Function '' @ problem_name @ '' not found'')) out
           | Some func \<Rightarrow>
               (case comes_back (truth_test func) of
                  None \<Rightarrow> None
                | Some (Inl e, out1, err1) \<Rightarrow> except_handler e (written_after out out1)
                | Some (Inr is_true, out1, err1) \<Rightarrow>
                    if \<not> is_true
                    then except_handler (NameError (''Function '' @ problem_name @ '' not found''))
                           (written_after out out1)
                    else
                      (case comes_back (call func test_args) of
                         None \<Rightarrow> None
                       | Some (Inl e, out2, err2) \<Rightarrow>
                           except_handler e (written_after (written_after out out1) out2)
                       | Some (Inr result, out2, err2) \<Rightarrow>
                           return_statement result
                             (written_after (written_after out out1) out2)
                             (written_after (written_after err err1) err2)))))"


section \<open>Processes and files\<close>

text \<open>
  The part of the operating system the executors touch: the directories, each with its
  files (name and content), and the child processes started so far, by their command
  lines.
\<close>

type_synonym filesys = "string \<rightharpoonup> (string \<rightharpoonup> string)"

record os_state =
  files :: filesys
  spawned :: "string list list"

text \<open>
  A child process, as the operating system would run it: whether it can be started at
  all, after how many seconds it exits (\<open>None\<close>: never), its exit status and output, and
  what it does to the files until it exits or is killed.
\<close>

record child =
  start_error :: "error option"
  duration :: "nat option"
  returncode :: int
  stdout :: string
  stderr :: string
  effect :: "filesys \<Rightarrow> filesys"

text \<open>
  \<^verbatim>\<open>subprocess.run(args, capture_output=True, text=True, timeout=t)\<close>: the completed
  process, or \<^verbatim>\<open>TimeoutExpired\<close> once the child, not done after \<open>t\<close> seconds, has been
  killed.
\<close>

definition subprocess_run ::
  "string list \<Rightarrow> nat \<Rightarrow> child \<Rightarrow> os_state \<Rightarrow> (error + int \<times> string \<times> string) \<times> os_state" where
  "subprocess_run args timeout ch s =
     (case start_error ch of
        Some e \<Rightarrow> (Inl e, s)
      | None \<Rightarrow>
          (let s' = s\<lparr>files := effect ch (files s), spawned := spawned s @ [args]\<rparr> in
           case duration ch of
             None \<Rightarrow> (Inl (TimeoutExpired args timeout), s')
           | Some d \<Rightarrow>
               if d \<le> timeout then (Inr (returncode ch, stdout ch, stderr ch), s')
               else (Inl (TimeoutExpired args timeout), s')))"

text \<open>
  What one call of an executor finds around it: the directory that
  \<^verbatim>\<open>tempfile.mkdtemp()\<close> creates, \<^verbatim>\<open>os.name\<close>, whether writing the harness file fails,
  the compiler and the program as child processes, the names of the entries of a
  directory that the caller is not able to remove (an entry of another owner, or one
  below a directory without permissions), and the wording of the error that
  \<^verbatim>\<open>json.loads\<close> raises for a text.
\<close>

record env =
  fresh_dir :: string
  os_name :: string
  write_error :: "error option"
  compiler :: child
  program :: child
  undeletable :: "string set"
  decode_error_text :: "string \<Rightarrow> string"

text \<open>\<^verbatim>\<open>os.path.join(temp_dir, name)\<close> for a relative name.\<close>

definition path_join :: "string \<Rightarrow> string \<Rightarrow> string" where
  "path_join d name = (if d = [] \<or> last d = CHR ''/'' then d @ name else d @ ''/'' @ name)"

definition mkdtemp :: "env \<Rightarrow> os_state \<Rightarrow> string \<times> os_state" where
  "mkdtemp e s = (fresh_dir e, s\<lparr>files := (files s)(fresh_dir e \<mapsto> Map.empty)\<rparr>)"

text \<open>\<^verbatim>\<open>with open(path, 'w') as f: f.write(text)\<close>, for a file of directory \<open>d\<close>.\<close>

definition write_file ::
  "env \<Rightarrow> string \<Rightarrow> string \<Rightarrow> string \<Rightarrow> os_state \<Rightarrow> (error + unit) \<times> os_state" where
  "write_file e d name text s =
     (case write_error e of
        Some err \<Rightarrow> (Inl err, s)
      | None \<Rightarrow>
          (Inr (),
           s\<lparr>files := (files s)(d \<mapsto>
                (case files s d of None \<Rightarrow> [name \<mapsto> text] | Some dir \<Rightarrow> dir(name \<mapsto> text)))\<rparr>))"

text \<open>
  \<^verbatim>\<open>shutil.rmtree(temp_dir, ignore_errors=True)\<close>: every entry that can be removed is
  removed, and the directory with them when none is left; an entry that cannot be
  removed stays, in the directory, and no error is raised.
\<close>

definition rmtree :: "env \<Rightarrow> string \<Rightarrow> os_state \<Rightarrow> os_state" where
  "rmtree e d s =
     (case files s d of
        None \<Rightarrow> s
      | Some entries \<Rightarrow>
          if dom entries \<inter> undeletable e = {} then s\<lparr>files := (files s)(d := None)\<rparr>
          else s\<lparr>files := (files s)(d \<mapsto> entries |` undeletable e)\<rparr>)"

text \<open>\<^verbatim>\<open>try: body finally: shutil.rmtree(temp_dir, ignore_errors=True)\<close>\<close>

definition finally_rmtree :: "env \<Rightarrow> string \<Rightarrow> 'a \<times> os_state \<Rightarrow> 'a \<times> os_state" where
  "finally_rmtree e d r = (fst r, rmtree e d (snd r))"


section \<open>Harness generation\<close>

text \<open>The lines of a text, each closed by a line feed.\<close>

definition unlines :: "string list \<Rightarrow> string" where
  "unlines ls = concat (map (\<lambda>l. l @ [LF]) ls)"

definition js_harness :: "string \<Rightarrow> pyval list \<Rightarrow> string \<Rightarrow> string" where
  "js_harness code test_args problem_name =
     code @ [LF] @
     unlines
       [[],
        ''// Test harness'',
        ''const args = '' @ json_dumps (PList test_args) @ '';'',
        ''const result = '' @ problem_name @ ''(...args);'',
        ''console.log('' @ [squote] @ ''RESULT:'' @ [squote] @ '' + JSON.stringify(result));'']"

definition java_harness :: "string \<Rightarrow> pyval list \<Rightarrow> string \<Rightarrow> string" where
  "java_harness code test_args problem_name =
     (let java_args = join '', '' (map python_to_java test_args) in
      [LF] @ py_replace ''public class'' ''class'' code @ [LF] @
      unlines
        [[],
         ''public class TestRunner {'',
         ''    public static void main(String[] args) {'',
         ''        Solution sol = new Solution();'',
         ''        Object result = sol.'' @ problem_name @ ''('' @ java_args @ '');'',
         ''        System.out.println('' @ [dquote] @ ''RESULT:'' @ [dquote] @ '' + result);'',
         ''    }'',
         ''}''])"

definition cpp_harness :: "string \<Rightarrow> pyval list \<Rightarrow> string \<Rightarrow> string" where
  "cpp_harness code test_args problem_name =
     (let cpp_args = join '', '' (map python_to_cpp test_args) in
      [LF] @
      unlines
        [''#include <iostream>'',
         ''#include <vector>'',
         ''#include <string>'',
         ''#include <sstream>'',
         ''using namespace std;'',
         []] @
      code @ [LF] @
      unlines
        [[],
         ''int main() {'',
         ''    auto result = '' @ problem_name @ ''('' @ cpp_args @ '');'',
         ''    cout << '' @ [dquote] @ ''RESULT:'' @ [dquote] @ '' << result << endl;'',
         ''    return 0;'',
         ''}''])"

section \<open>The executors that run a child process\<close>

text \<open>
  Each executor answers its result, \<open>Inl\<close> an exception raised to the caller or \<open>Inr\<close> the
  triple \<^verbatim>\<open>(result, stdout, stderr)\<close>, with the state it leaves. \<open>then_do\<close> is the
  sequence of two statements: an exception raised by the first skips the second.
\<close>

type_synonym outcome = "error + pyval \<times> string \<times> string"

definition then_do ::
  "(error + 'a) \<times> os_state \<Rightarrow> ('a \<Rightarrow> os_state \<Rightarrow> (error + 'b) \<times> os_state)
   \<Rightarrow> (error + 'b) \<times> os_state" where
  "then_do r f = (case r of (Inl err, s) \<Rightarrow> (Inl err, s) | (Inr a, s) \<Rightarrow> f a s)"

definition execute_javascript ::
  "env \<Rightarrow> string \<Rightarrow> pyval list \<Rightarrow> string \<Rightarrow> os_state \<Rightarrow> outcome \<times> os_state" where
  "execute_javascript e code test_args problem_name s0 =
     (case mkdtemp e s0 of
        (temp_dir, s1) \<Rightarrow>
          finally_rmtree e temp_dir
            (let js_file = path_join temp_dir ''solution.js'' in
             then_do (write_file e temp_dir ''solution.js''
                        (js_harness code test_args problem_name) s1) (\<lambda>u s2.
             then_do (subprocess_run [''node'', js_file] 5 (program e) s2) (\<lambda>(rc, out, err) s3.
               if rc \<noteq> 0 then (Inl (RuntimeError (''JavaScript error: '' @ err)), s3)
               else
                 (case result_line out of
                    None \<Rightarrow> (Inl (RuntimeError (''Could not find RESULT in output: '' @ out)), s3)
                  | Some line \<Rightarrow>
                      (case json_loads (decode_error_text e) (payload line) of
                         Inl jerr \<Rightarrow> (Inl jerr, s3)
                       | Inr result \<Rightarrow> (Inr (result, out, err), s3)))))))"

definition execute_java ::
  "env \<Rightarrow> string \<Rightarrow> pyval list \<Rightarrow> string \<Rightarrow> os_state \<Rightarrow> outcome \<times> os_state" where
  "execute_java e code test_args problem_name s0 =
     (case mkdtemp e s0 of
        (temp_dir, s1) \<Rightarrow>
          finally_rmtree e temp_dir
            (let java_file = path_join temp_dir ''TestRunner.java'' in
             then_do (write_file e temp_dir ''TestRunner.java''
                        (java_harness code test_args problem_name) s1) (\<lambda>u s2.
             then_do (subprocess_run [''javac'', java_file] 10 (compiler e) s2)
               (\<lambda>(crc, cout, cerr) s3.
               if crc \<noteq> 0 then (Inl (RuntimeError (''Java compilation error: '' @ cerr)), s3)
               else
             then_do (subprocess_run [''java'', ''-cp'', temp_dir, ''TestRunner''] 5 (program e) s3)
               (\<lambda>(rc, out, err) s4.
               if rc \<noteq> 0 then (Inl (RuntimeError (''Java runtime error: '' @ err)), s4)
               else
                 (case java_parse_output out of
                    None \<Rightarrow> (Inl (RuntimeError (''Could not find RESULT in output: '' @ out)), s4)
                  | Some result \<Rightarrow> (Inr (result, out, err), s4)))))))"

definition execute_cpp ::
  "env \<Rightarrow> string \<Rightarrow> pyval list \<Rightarrow> string \<Rightarrow> os_state \<Rightarrow> outcome \<times> os_state" where
  "execute_cpp e code test_args problem_name s0 =
     (case mkdtemp e s0 of
        (temp_dir, s1) \<Rightarrow>
          finally_rmtree e temp_dir
            (let cpp_file = path_join temp_dir ''solution.cpp'';
                 exe_file = path_join temp_dir
                   (if os_name e = ''nt'' then ''solution.exe'' else ''solution'') in
             then_do (write_file e temp_dir ''solution.cpp''
                        (cpp_harness code test_args problem_name) s1) (\<lambda>u s2.
             then_do (subprocess_run [''g++'', ''-std=c++17'', cpp_file, ''-o'', exe_file] 10
                        (compiler e) s2)
               (\<lambda>(crc, cout, cerr) s3.
               if crc \<noteq> 0 then (Inl (RuntimeError (''C++ compilation error: '' @ cerr)), s3)
               else
             then_do (subprocess_run [exe_file] 5 (program e) s3)
               (\<lambda>(rc, out, err) s4.
               if rc \<noteq> 0 then (Inl (RuntimeError (''C++ runtime error: '' @ err)), s4)
               else
                 (case cpp_parse_output out of
                    None \<Rightarrow> (Inl (RuntimeError (''Could not find RESULT in output: '' @ out)), s4)
                  | Some result \<Rightarrow> (Inr (result, out, err), s4)))))))"

section \<open>Properties of the executors\<close>

lemma finally_rmtree_fst: "fst (finally_rmtree e d r) = fst r"
  by (simp add: finally_rmtree_def)

lemma finally_rmtree_spawned: "spawned (snd (finally_rmtree e d r)) = spawned (snd r)"
  by (simp add: finally_rmtree_def rmtree_def split: option.splits)



lemma write_file_ok:
  "write_error e = None \<Longrightarrow>
   \<exists>s'. write_file e d name text s = (Inr (), s') \<and> spawned s' = spawned s"
  by (simp add: write_file_def)

lemma subprocess_run_failed:
  assumes "start_error ch = None" and "duration ch = Some d" and "d \<le> timeout"
  shows "\<exists>s'. subprocess_run args timeout ch s = (Inr (returncode ch, stdout ch, stderr ch), s')
           \<and> spawned s' = spawned s @ [args]"
  using assms by (simp add: subprocess_run_def Let_def)

text \<open>
  Claim C5. When the harness is written and the compiler runs to its end within its ten
  seconds with a status other than zero, \<^verbatim>\<open>execute_java\<close> and \<^verbatim>\<open>execute_cpp\<close> raise the
  compilation error with the compiler's standard error, and the only child process
  started by the call is the compiler: the program is never run.
\<close>

theorem compile_failure_never_runs:
  assumes "write_error e = None"
    and "start_error (compiler e) = None"
    and "duration (compiler e) = Some d"
    and "d \<le> 10"
    and "returncode (compiler e) \<noteq> 0"
  shows "fst (execute_java e code test_args problem_name s)
           = Inl (RuntimeError (''Java compilation error: '' @ stderr (compiler e)))
    \<and> spawned (snd (execute_java e code test_args problem_name s))
           = spawned s @ [[''javac'', path_join (fresh_dir e) ''TestRunner.java'']]
    \<and> fst (execute_cpp e code test_args problem_name s)
           = Inl (RuntimeError (''C++ compilation error: '' @ stderr (compiler e)))
    \<and> spawned (snd (execute_cpp e code test_args problem_name s))
           = spawned s @ [[''g++'', ''-std=c++17'', path_join (fresh_dir e) ''solution.cpp'', ''-o'',
                path_join (fresh_dir e) (if os_name e = ''nt'' then ''solution.exe'' else ''solution'')]]"
proof -
  define s1 where "s1 = snd (mkdtemp e s)"
  have m: "mkdtemp e s = (fresh_dir e, s1)" and sp1: "spawned s1 = spawned s"
    by (simp_all add: s1_def mkdtemp_def)
  obtain j2 where wj: "write_file e (fresh_dir e) ''TestRunner.java''
      (java_harness code test_args problem_name) s1 = (Inr (), j2)" and spj: "spawned j2 = spawned s1"
    using write_file_ok [OF assms(1)] by blast
  obtain j3 where rj: "subprocess_run [''javac'', path_join (fresh_dir e) ''TestRunner.java''] 10
      (compiler e) j2 = (Inr (returncode (compiler e), stdout (compiler e), stderr (compiler e)), j3)"
    and spj3: "spawned j3 = spawned j2 @ [[''javac'', path_join (fresh_dir e) ''TestRunner.java'']]"
    using subprocess_run_failed [OF assms(2-4)] by blast
  have java: "execute_java e code test_args problem_name s =
      finally_rmtree e (fresh_dir e)
        (Inl (RuntimeError (''Java compilation error: '' @ stderr (compiler e))), j3)"
    using assms(5) by (simp add: execute_java_def m wj rj then_do_def)
  obtain c2 where wc: "write_file e (fresh_dir e) ''solution.cpp''
      (cpp_harness code test_args problem_name) s1 = (Inr (), c2)" and spc: "spawned c2 = spawned s1"
    using write_file_ok [OF assms(1)] by blast
  define cmd where "cmd = [''g++'', ''-std=c++17'', path_join (fresh_dir e) ''solution.cpp'', ''-o'',
      path_join (fresh_dir e) (if os_name e = ''nt'' then ''solution.exe'' else ''solution'')]"
  obtain c3 where rc: "subprocess_run cmd 10 (compiler e) c2 =
      (Inr (returncode (compiler e), stdout (compiler e), stderr (compiler e)), c3)"
    and spc3: "spawned c3 = spawned c2 @ [cmd]"
    using subprocess_run_failed [OF assms(2-4)] by blast
  have cpp: "execute_cpp e code test_args problem_name s =
      finally_rmtree e (fresh_dir e)
        (Inl (RuntimeError (''C++ compilation error: '' @ stderr (compiler e))), c3)"
    using assms(5) rc unfolding cmd_def by (simp add: execute_cpp_def m wc then_do_def)
  show ?thesis
    unfolding java cpp finally_rmtree_fst finally_rmtree_spawned
    by (simp add: spj3 spj sp1 spc3 spc cmd_def)
qed


definition same_outside :: "string \<Rightarrow> os_state \<Rightarrow> os_state \<Rightarrow> bool" where
  "same_outside d s s' = (\<forall>d'. d' \<noteq> d \<longrightarrow> files s' d' = files s d')"

lemma same_outside_refl: "same_outside d s s"
  by (simp add: same_outside_def)


lemma mkdtemp_outside: "same_outside (fresh_dir e) s (snd (mkdtemp e s))"
  by (simp add: same_outside_def mkdtemp_def)














section \<open>Sample surroundings\<close>

text \<open>Concrete children, surroundings and states, for the instances below.\<close>

definition quiet_child :: "nat \<Rightarrow> int \<Rightarrow> string \<Rightarrow> string \<Rightarrow> child" where
  "quiet_child secs rc out err =
     \<lparr>start_error = None, duration = Some secs, returncode = rc, stdout = out, stderr = err,
      effect = (\<lambda>f. f)\<rparr>"


definition hung_child :: child where
  "hung_child =
     \<lparr>start_error = None, duration = None, returncode = 0, stdout = [], stderr = [],
      effect = (\<lambda>f. f)\<rparr>"

definition sample_env :: "child \<Rightarrow> child \<Rightarrow> env" where
  "sample_env c p =
     \<lparr>fresh_dir = ''/tmp/tmpk3x9'', os_name = ''posix'', write_error = None,
      compiler = c, program = p, undeletable = {},
      decode_error_text = (\<lambda>s. ''Expecting value: line 1 column 1 (char 0)'')\<rparr>"

definition empty_os :: os_state where
  "empty_os = \<lparr>files = Map.empty, spawned = []\<rparr>"




theorem compile_failure_never_runs_witness:
  "fst (execute_java (sample_env (quiet_child 3 1 [] ''TestRunner.java:3: error'') hung_child)
          ''class Solution {'' [] ''f'' empty_os)
     = Inl (RuntimeError ''Java compilation error: TestRunner.java:3: error'')
   \<and> spawned (snd (execute_cpp (sample_env (quiet_child 3 1 [] ''error'') hung_child)
          ''int f( {'' [] ''f'' empty_os))
     = [[''g++'', ''-std=c++17'', ''/tmp/tmpk3x9/solution.cpp'', ''-o'', ''/tmp/tmpk3x9/solution'']]"
  using compile_failure_never_runs [of "sample_env (quiet_child 3 1 [] ''TestRunner.java:3: error'') hung_child"
      3 "''class Solution {''" "[]" "''f''" empty_os]
    compile_failure_never_runs [of "sample_env (quiet_child 3 1 [] ''error'') hung_child"
      3 "''int f( {''" "[]" "''f''" empty_os]
  by (simp add: sample_env_def quiet_child_def empty_os_def path_join_def)


text \<open>
  Where the program does not exit within its five seconds, the three executors that run
  a child process raise \<^verbatim>\<open>TimeoutExpired\<close> to their caller.
\<close>

lemma subprocess_run_timeout:
  assumes "start_error ch = None" and "duration ch = None \<or> (\<exists>d. duration ch = Some d \<and> t < d)"
  shows "fst (subprocess_run args t ch s) = Inl (TimeoutExpired args t)"
  using assms by (auto simp: subprocess_run_def Let_def)

lemma subprocess_run_done:
  assumes "start_error ch = None" and "duration ch = Some d" and "d \<le> t"
  shows "subprocess_run args t ch s =
           (Inr (returncode ch, stdout ch, stderr ch),
            s\<lparr>files := effect ch (files s), spawned := spawned s @ [args]\<rparr>)"
  using assms by (simp add: subprocess_run_def Let_def)

lemma then_do_Inl: "fst r = Inl x \<Longrightarrow> fst (then_do r f) = Inl x"
  by (cases r) (simp add: then_do_def)

lemma write_file_done:
  "write_error e = None \<Longrightarrow> fst (write_file e d name txt s) = Inr ()"
  by (simp add: write_file_def)

lemma then_do_Inr: "fst r = Inr a \<Longrightarrow> then_do r f = f a (snd r)"
  by (cases r) (simp add: then_do_def)

lemma executors_time_out:
  assumes "write_error e = None"
    and "start_error (program e) = None"
    and "duration (program e) = None \<or> (\<exists>d. duration (program e) = Some d \<and> 5 < d)"
  shows "fst (execute_javascript e code test_args problem_name s)
           = Inl (TimeoutExpired [''node'', path_join (fresh_dir e) ''solution.js''] 5)"
    and "start_error (compiler e) = None \<Longrightarrow> duration (compiler e) = Some c \<Longrightarrow> c \<le> 10 \<Longrightarrow>
         returncode (compiler e) = 0 \<Longrightarrow>
         fst (execute_java e code test_args problem_name s)
           = Inl (TimeoutExpired [''java'', ''-cp'', fresh_dir e, ''TestRunner''] 5)"
    and "start_error (compiler e) = None \<Longrightarrow> duration (compiler e) = Some c \<Longrightarrow> c \<le> 10 \<Longrightarrow>
         returncode (compiler e) = 0 \<Longrightarrow>
         fst (execute_cpp e code test_args problem_name s)
           = Inl (TimeoutExpired [path_join (fresh_dir e)
                    (if os_name e = ''nt'' then ''solution.exe'' else ''solution'')] 5)"
proof -
  note t = subprocess_run_timeout [OF assms(2,3)]
  show "fst (execute_javascript e code test_args problem_name s)
           = Inl (TimeoutExpired [''node'', path_join (fresh_dir e) ''solution.js''] 5)"
    by (simp add: execute_javascript_def mkdtemp_def finally_rmtree_fst Let_def
        then_do_Inr [OF write_file_done [OF assms(1)]] then_do_Inl [OF t])
  assume c: "start_error (compiler e) = None" "duration (compiler e) = Some c" "c \<le> 10"
    "returncode (compiler e) = 0"
  note k = subprocess_run_done [OF c(1-3)]
  show "fst (execute_java e code test_args problem_name s)
           = Inl (TimeoutExpired [''java'', ''-cp'', fresh_dir e, ''TestRunner''] 5)"
    by (simp add: execute_java_def mkdtemp_def finally_rmtree_fst Let_def
        then_do_Inr [OF write_file_done [OF assms(1)]] k then_do_def [of "(Inr x, y)" for x y]
        c(4) then_do_Inl [OF t])
  show "fst (execute_cpp e code test_args problem_name s)
           = Inl (TimeoutExpired [path_join (fresh_dir e)
                    (if os_name e = ''nt'' then ''solution.exe'' else ''solution'')] 5)"
    by (simp add: execute_cpp_def mkdtemp_def finally_rmtree_fst Let_def
        then_do_Inr [OF write_file_done [OF assms(1)]] k then_do_def [of "(Inr x, y)" for x y]
        c(4) then_do_Inl [OF t])
qed

text \<open>
  Claim C3 fails for \<^verbatim>\<open>execute_python\<close>: the submitted function runs inside the caller
  under no timeout, so a call that never returns keeps \<^verbatim>\<open>execute_python\<close> from returning.
\<close>

theorem python_submission_hangs:
  "execute_python (Returns (ns(problem_name \<mapsto> Function (\<lambda>args. Diverges))) out err)
     test_args problem_name = None
   \<and> execute_python Diverges test_args problem_name = None"
  by (simp add: execute_python_def comes_back_def truth_test_def call_def)

section \<open>What leaves the Python executor\<close>

text \<open>
  An exception has a text when asking for it raises nothing. Code is plain when, if it
  comes back, both streams are open and what it raises derives from \<^verbatim>\<open>Exception\<close> and
  has a text.
\<close>

definition has_text :: "error \<Rightarrow> bool" where
  "has_text e = (case format_exception e of Inl x \<Rightarrow> False | Inr txt \<Rightarrow> True)"

definition plain :: "'a behaviour \<Rightarrow> bool" where
  "plain b =
     (case comes_back b of
        None \<Rightarrow> True
      | Some (r, out, err) \<Rightarrow>
          out \<noteq> None \<and> err \<noteq> None
          \<and> (case r of Inl e \<Rightarrow> is_Exception e \<and> has_text e | Inr v \<Rightarrow> True))"










section \<open>Results across the languages\<close>












section \<open>A correct submission\<close>

















section \<open>The execution tracer\<close>

text \<open>
  What \<^verbatim>\<open>repr(obj)\<close> does for an object seen by the tracer: it answers a text, or raises
  an exception with the given text, for an object of the given class.
\<close>

datatype reprable = Repr string | Unreprable string string

text \<open>The character U+2026 that marks a cut preview, in UTF-8.\<close>

definition ellipsis :: string where
  "ellipsis = [CHR 0xE2, CHR 0x80, CHR 0xA6]"

text \<open>\<^verbatim>\<open>_safe_repr(obj, max_len=200)\<close>\<close>

definition safe_repr :: "reprable \<Rightarrow> string" where
  "safe_repr obj =
     (let s = (case obj of
                 Repr r \<Rightarrow> r
               | Unreprable cls msg \<Rightarrow> ''<unreprable '' @ cls @ '': '' @ msg @ ''>'')
      in if 200 < length s then take 200 s @ ellipsis else s)"

text \<open>\<^verbatim>\<open>repr\<close> of the tuple of arguments.\<close>

definition repr_tuple :: "pyval list \<Rightarrow> string" where
  "repr_tuple args =
     (case args of
        [x] \<Rightarrow> ''('' @ py_repr x @ '',)''
      | _ \<Rightarrow> ''('' @ join '', '' (map py_repr args) @ '')'')"

text \<open>
  One call of the trace function by the interpreter: the file name of the code of the
  frame, the event, the line, the local variables of the frame and the argument of the
  event (the value returned, for \<^verbatim>\<open>return\<close>).
\<close>

record frame_event =
  co_filename :: string
  event :: string
  f_lineno :: int
  f_locals :: "(string \<times> reprable) list"
  arg :: reprable

text \<open>One record of the trace: the dictionary \<^verbatim>\<open>step\<close>.\<close>

record step =
  s_event :: string
  s_line :: int
  s_code :: string
  s_locals :: "(string \<times> string) list"
  s_return :: "string option"

text \<open>What the request fixes for the tracer.\<close>

record config =
  breakpoints :: "int set"
  max_steps :: int
  code_lines :: "string list"

text \<open>
  What the trace function changes: the list \<^verbatim>\<open>trace\<close>, the flag \<^verbatim>\<open>truncated\<close>, and
  whether the interpreter has a trace function installed (\<^verbatim>\<open>sys.settrace\<close>).
\<close>

record tracer_state =
  trace :: "step list"
  truncated :: bool
  hook :: bool

text \<open>
  \<^verbatim>\<open>tracer(frame, event, arg)\<close>. Where the source returns \<^verbatim>\<open>tracer\<close> the hook stays; at
  the cap it sets \<^verbatim>\<open>truncated\<close>, calls \<^verbatim>\<open>sys.settrace(None)\<close> and returns \<^verbatim>\<open>None\<close>.
  The local variables are given as a list, so the empty snapshot that the source takes
  when reading them raises does not arise.
\<close>

definition tracer :: "config \<Rightarrow> frame_event \<Rightarrow> tracer_state \<Rightarrow> tracer_state" where
  "tracer cfg ev st =
     (if co_filename ev \<noteq> ''<string>'' then st
      else if event ev \<in> {''call'', ''line'', ''return''} then
        (let line_no = f_lineno ev;
             record_this = (breakpoints cfg = {} \<or> line_no \<in> breakpoints cfg)
         in if record_this then
              (let locals_snapshot = map (\<lambda>(k, v). (k, safe_repr v)) (f_locals ev);
                   step = \<lparr>s_event = event ev, s_line = line_no,
                           s_code = (if 1 \<le> line_no \<and> line_no \<le> int (length (code_lines cfg))
                                     then code_lines cfg ! nat (line_no - 1) else []),
                           s_locals = locals_snapshot,
                           s_return = (if event ev = ''return'' then Some (safe_repr (arg ev))
                                       else None)\<rparr>;
                   st' = st\<lparr>trace := trace st @ [step]\<rparr>
               in if max_steps cfg \<le> int (length (trace st'))
                  then st'\<lparr>truncated := True, hook := False\<rparr>
                  else st')
            else st)
      else st)"

text \<open>
  The interpreter runs the call and reports its events, in order, to the trace function,
  as long as one is installed.
\<close>

fun run_traced :: "config \<Rightarrow> frame_event list \<Rightarrow> tracer_state \<Rightarrow> tracer_state" where
  "run_traced cfg [] st = st"
| "run_traced cfg (ev # evs) st =
     (if hook st then run_traced cfg evs (tracer cfg ev st) else st)"

text \<open>The answers of \<^verbatim>\<open>debug_solution\<close>.\<close>

datatype response =
    Bad_request string
  | Failed string "step list" string string
  | Traced "step list" bool string string string string

text \<open>
  The clause \<^verbatim>\<open>except Exception as e\<close> of \<^verbatim>\<open>debug_solution\<close>, which runs after
  \<^verbatim>\<open>sys.settrace(None)\<close>: the answer is made of the text of the exception, the trace and
  the two streams, and what forming the text or reading a stream raises leaves the
  function. An exception of another kind passes through.
\<close>

definition failed_response ::
  "error \<Rightarrow> step list \<Rightarrow> string option \<Rightarrow> string option \<Rightarrow> ((error + response) \<times> bool) option" where
  "failed_response e steps stdout_capture stderr_capture =
     (if is_Exception e then
        (case format_exception e of
           Inl x \<Rightarrow> Some (Inl x, False)
         | Inr txt \<Rightarrow>
             (case getvalue stdout_capture of
                Inl x \<Rightarrow> Some (Inl x, False)
              | Inr out \<Rightarrow>
                  (case getvalue stderr_capture of
                     Inl x \<Rightarrow> Some (Inl x, False)
                   | Inr err \<Rightarrow> Some (Inr (Failed txt steps out err), False))))
      else Some (Inl e, False))"

text \<open>
  \<^verbatim>\<open>debug_solution\<close>. The checks of the request that come first (problem, test index,
  custom arguments) are given by their outcome: \<open>Inl\<close> the message of the answer 400, sent
  before anything is traced, or \<open>Inr\<close> the arguments. \<open>events\<close> are the events of the call
  \<^verbatim>\<open>user_func(*args)\<close>. The result is \<open>None\<close> when the request never ends; otherwise the
  answer, or the exception that leaves the function, and whether a trace function is
  installed afterwards. \<^verbatim>\<open>exec(code, namespace)\<close> runs before the streams are redirected,
  so that both are empty when it raises.
\<close>

definition debug_solution ::
  "(string + pyval list) \<Rightarrow> string \<Rightarrow> config \<Rightarrow> namespace behaviour \<Rightarrow> frame_event list \<Rightarrow> bool
   \<Rightarrow> ((error + response) \<times> bool) option" where
  "debug_solution checked func_name cfg code events hook0 =
     (case checked of
        Inl msg \<Rightarrow> Some (Inr (Bad_request msg), hook0)
      | Inr args \<Rightarrow>
          (let st0 = \<lparr>trace = [], truncated = False, hook = hook0\<rparr> in
           case comes_back code of
             None \<Rightarrow> None
           | Some (Inl e, out, err) \<Rightarrow> failed_response e (trace st0) (Some []) (Some [])
           | Some (Inr namespace, out, err) \<Rightarrow>
               (case namespace func_name of
                  None \<Rightarrow>
                    Some (Inr (Bad_request
                      (''Function '' @ func_name @ '' not found in submitted code'')), False)
                | Some user_func \<Rightarrow>
                    (let st = run_traced cfg events (st0\<lparr>hook := True\<rparr>) in
                     case comes_back (call user_func args) of
                       None \<Rightarrow> None
                     | Some (Inl e, out', err') \<Rightarrow> failed_response e (trace st) out' err'
                     | Some (Inr retval, out', err') \<Rightarrow>
                         (case getvalue out' of
                            Inl x \<Rightarrow> Some (Inl x, False)
                          | Inr stdout_text \<Rightarrow>
                              (case getvalue err' of
                                 Inl x \<Rightarrow> Some (Inl x, False)
                               | Inr stderr_text \<Rightarrow>
                                   Some (Inr (Traced (trace st) (truncated st) stdout_text stderr_text
                                                (safe_repr (Repr (py_repr retval)))
                                                (safe_repr (Repr (repr_tuple args)))),
                                         False)))))))"

section \<open>A sample traced run\<close>

definition summation :: "pyval list \<Rightarrow> pyval behaviour" where
  "summation args =
     (case args of
        [PInt a, PInt b] \<Rightarrow> Returns (PInt (a + b)) [] []
      | _ \<Rightarrow> Raises (TypeError ''summation() takes 2 positional arguments'') [] [])"

definition summation_module :: "namespace behaviour" where
  "summation_module = Returns [''summation'' \<mapsto> Function summation] [] []"

definition summation_lines :: "string list" where
  "summation_lines = [''def summation(a, b):'', ''    return a + b'']"

text \<open>The events of \<^verbatim>\<open>summation(2, 3)\<close>: the call, the line of the body, the return.\<close>

definition summation_events :: "frame_event list" where
  "summation_events =
     (let locals = [(''a'', Repr ''2''), (''b'', Repr ''3'')] in
      [\<lparr>co_filename = ''<string>'', event = ''call'', f_lineno = 1, f_locals = locals,
        arg = Repr ''None''\<rparr>,
       \<lparr>co_filename = ''<string>'', event = ''line'', f_lineno = 2, f_locals = locals,
        arg = Repr ''None''\<rparr>,
       \<lparr>co_filename = ''<string>'', event = ''return'', f_lineno = 2, f_locals = locals,
        arg = Repr ''5''\<rparr>])"

section \<open>Properties of the tracer\<close>

text \<open>
  With a cap of at least one, the trace never grows beyond the cap, the hook is installed
  exactly as long as the cap is not reached, and \<^verbatim>\<open>truncated\<close> says that it is reached.
\<close>

definition within_cap :: "config \<Rightarrow> tracer_state \<Rightarrow> bool" where
  "within_cap cfg st =
     (int (length (trace st)) \<le> max_steps cfg
      \<and> hook st = (int (length (trace st)) < max_steps cfg)
      \<and> truncated st = (max_steps cfg \<le> int (length (trace st))))"

lemma tracer_within_cap: "within_cap cfg st \<Longrightarrow> hook st \<Longrightarrow> within_cap cfg (tracer cfg ev st)"
  by (auto simp: within_cap_def tracer_def Let_def)

lemma run_traced_within_cap: "within_cap cfg st \<Longrightarrow> within_cap cfg (run_traced cfg evs st)"
  by (induction evs arbitrary: st) (simp_all add: tracer_within_cap)

lemma trace_within_positive_cap:
  assumes "1 \<le> max_steps cfg"
    and "debug_solution (Inr args) func_name cfg code events hook0
           = Some (Inr (Traced tr trunc out err ret used), h)"
  shows "int (length tr) \<le> max_steps cfg \<and> trunc = (int (length tr) = max_steps cfg)"
proof -
  have "within_cap cfg \<lparr>trace = [], truncated = False, hook = True\<rparr>"
    using assms(1) by (simp add: within_cap_def)
  then have w: "within_cap cfg (run_traced cfg events \<lparr>trace = [], truncated = False, hook = True\<rparr>)"
    by (rule run_traced_within_cap)
  from assms(2) have "tr = trace (run_traced cfg events \<lparr>trace = [], truncated = False, hook = True\<rparr>)
      \<and> trunc = truncated (run_traced cfg events \<lparr>trace = [], truncated = False, hook = True\<rparr>)"
    by (simp add: debug_solution_def Let_def failed_response_def
        split: option.splits prod.splits sum.splits if_splits)
  then show ?thesis
    using w by (auto simp: within_cap_def)
qed

text \<open>Once the hook is gone, no event is recorded.\<close>

lemma run_traced_stopped: "\<not> hook st \<Longrightarrow> run_traced cfg evs st = st"
  by (cases evs) simp_all

text \<open>
  Claim C8 fails for a cap of zero: the trace function appends the record and compares
  the length with the cap afterwards, so the first event of the submitted code is recorded
  although the cap allows none.
\<close>

theorem trace_exceeds_zero_cap:
  "debug_solution (Inr [PInt 2, PInt 3]) ''summation''
     \<lparr>breakpoints = {}, max_steps = 0, code_lines = summation_lines\<rparr>
     summation_module summation_events False
   = Some (Inr (Traced
        [\<lparr>s_event = ''call'', s_line = 1, s_code = ''def summation(a, b):'',
          s_locals = [(''a'', ''2''), (''b'', ''3'')], s_return = None\<rparr>]
        True [] [] ''5'' ''(2, 3)''), False)"
proof -
  have r: "run_traced \<lparr>breakpoints = {}, max_steps = 0, code_lines = summation_lines\<rparr>
      summation_events \<lparr>trace = [], truncated = False, hook = True\<rparr>
    = \<lparr>trace = [\<lparr>s_event = ''call'', s_line = 1, s_code = ''def summation(a, b):'',
          s_locals = [(''a'', ''2''), (''b'', ''3'')], s_return = None\<rparr>],
       truncated = True, hook = False\<rparr>"
    by (simp add: summation_events_def summation_lines_def tracer_def safe_repr_def Let_def)
  have c: "call (Function summation) [PInt 2, PInt 3] = Returns (PInt 5) [] []"
    by (simp add: call_def summation_def)
  have p: "safe_repr (Repr (str_int 5)) = ''5''"
    by (simp add: safe_repr_def str_int_def str_nat.simps digit_char_def char_of_eq_iff)
  have u: "safe_repr (Repr (repr_tuple [PInt 2, PInt 3])) = ''(2, 3)''"
    by (simp add: safe_repr_def repr_tuple_def str_int_def str_nat.simps digit_char_def char_of_eq_iff)
  show ?thesis
    by (simp add: debug_solution_def summation_module_def comes_back_def getvalue_def r c p u)
qed




end
